theory Spec2Isabelle
  imports Complex_Main
begin

section \<open>The word-search generator of \<^verbatim>\<open>src/generateWordsOnBoard.js\<close>\<close>

text \<open>
  The JavaScript of \<^verbatim>\<open>generateWordsOnBoard.js\<close> as HOL functions, one per source
  function and under the source's name.

  \<^item> JavaScript numbers are integers here (\<open>int\<close>): board sizes, coordinates and
    lengths. \<open>NaN\<close>, infinities and fractions are outside the model.
  \<^item> A value whose type the code tests (\<^verbatim>\<open>typeof\<close>, truthiness) is a \<open>jsval\<close>.
  \<^item> A JavaScript array that the code indexes and writes is a map from index to value:
    reading an index that is absent gives \<^verbatim>\<open>undefined\<close>, writing one creates it, and
    indexing \<^verbatim>\<open>undefined\<close> throws a \<^verbatim>\<open>TypeError\<close>.
  \<^item> Every \<^verbatim>\<open>throw\<close> is a value of \<open>error\<close>; a function that can throw returns
    \<open>error + 'a\<close>.
  \<^item> \<^verbatim>\<open>Math.random()\<close> is an oracle: \<open>mathRandom E n\<close> is the result of the
    \<open>n\<close>-th call, and the number of calls made so far is passed along.
\<close>

subsection \<open>Values, errors and the engine\<close>

datatype jsval = JUndefined | JNull | JBool bool | JNum int | JStr string

text \<open>
  The four \<^verbatim>\<open>throw new Error(...)\<close> of \<^verbatim>\<open>validateInputs\<close>, in source order, and the
  \<^verbatim>\<open>TypeError\<close> the engine throws when a property of \<^verbatim>\<open>undefined\<close> is read.
  \<open>BlockLengthError w n\<close> carries the word and the length of the message
  \<^verbatim>\<open>Word "w" has invalid length n for block mode\<close>.
\<close>

datatype error =
    BoardSizeError
  | WordsError
  | AlignmentError
  | BlockLengthError string nat
  | TypeError

text \<open>
  What the JavaScript engine provides: the results of \<^verbatim>\<open>Math.random()\<close> in call
  order, and \<^verbatim>\<open>Array.prototype.sort\<close> under the comparator
  \<^verbatim>\<open>() => Math.random() - 0.5\<close>. The order such a comparator produces and the number
  of calls it makes depend on the engine's sorting algorithm, so the sort is a parameter:
  \<open>sortRandom E n cs\<close> is the sorted array and the number of \<^verbatim>\<open>Math.random()\<close> calls
  made once it returns, when \<open>n\<close> were made before.
\<close>

record engine =
  mathRandom :: "nat \<Rightarrow> real"
  sortRandom :: "nat \<Rightarrow> string \<Rightarrow> string \<times> nat"

subsection \<open>The data of the generator\<close>

text \<open>
  \<^verbatim>\<open>{width, height}\<close>: the board size (of \<open>jsval\<close> as the caller passes it, of \<open>int\<close>
  once validated) and the dimensions of a block.
\<close>

record 'n dims =
  width :: 'n
  height :: 'n

record lines_flags =
  horizontal :: bool
  vertical :: bool
  diagonal :: bool
  bendsStraight :: bool
  bendsDiagonal :: bool
  block :: bool

text \<open>
  \<^verbatim>\<open>{lines, direction}\<close>: as the caller passes it, \<open>lines\<close> may be missing (\<open>None\<close>,
  a falsy value) and \<open>direction\<close> is any value; once validated, \<open>lines\<close> is the
  truthiness of the six flags and \<open>direction\<close> is a string.
\<close>

record ('l, 'd) alignment =
  lines :: 'l
  direction :: 'd

type_synonym alignment_in = "(lines_flags option, jsval) alignment"
type_synonym alignment_ok = "(lines_flags, string) alignment"

record position =
  row :: int
  col :: int

record placement =
  type :: string
  positions :: "position list"
  blockDimensions :: "int dims option"

text \<open>A row of the board and the board: arrays, as maps from index to value.\<close>

type_synonym board_row = "int \<rightharpoonup> jsval"
type_synonym board = "int \<rightharpoonup> board_row"

text \<open>The object \<^verbatim>\<open>placeWordOnBoard\<close> returns: \<^verbatim>\<open>{success, reason}\<close>.\<close>

record placementResult =
  success :: bool
  reason :: "string option"

subsection \<open>Validation\<close>

definition invalidLengths :: "nat list" where
  "invalidLengths = [3, 5, 7, 11, 13]"

text \<open>The loop over \<open>words\<close> of the block check: it throws at the first word whose length is listed.\<close>

fun checkBlockLengths :: "string list \<Rightarrow> error + unit" where
  "checkBlockLengths [] = Inr ()"
| "checkBlockLengths (word # words) =
     (if length word \<in> set invalidLengths then Inl (BlockLengthError word (length word))
      else checkBlockLengths words)"

text \<open>
  \<open>boardSize = None\<close> is a falsy \<^verbatim>\<open>boardSize\<close>, \<open>words = None\<close> a value that is not an
  array, \<open>alignment = None\<close> a falsy \<^verbatim>\<open>alignment\<close>, \<open>lines alignment = None\<close> a falsy
  \<^verbatim>\<open>alignment.lines\<close>. The elements of \<open>words\<close> are strings. \<^verbatim>\<open>typeof v !== 'number'\<close>
  is every case of \<open>v\<close> but \<open>JNum\<close>, \<^verbatim>\<open>typeof v !== 'string'\<close> every case but \<open>JStr\<close>.
  The source function returns nothing when the checks pass; here it returns the inputs
  at the types the checks have established, for the code that runs after it.
\<close>

definition validateInputs ::
  "jsval dims option \<Rightarrow> string list option \<Rightarrow> alignment_in option \<Rightarrow>
   error + (int dims \<times> string list \<times> alignment_ok)" where
  "validateInputs boardSize words alignment =
     (case boardSize of
        None \<Rightarrow> Inl BoardSizeError
      | Some bs \<Rightarrow>
          (case (width bs, height bs) of
             (JNum w, JNum h) \<Rightarrow>
               (case words of
                  None \<Rightarrow> Inl WordsError
                | Some ws \<Rightarrow>
                    (case alignment of
                       None \<Rightarrow> Inl AlignmentError
                     | Some al \<Rightarrow>
                         (case (lines al, direction al) of
                            (Some ls, JStr d) \<Rightarrow>
                              (case (if block ls then checkBlockLengths ws else Inr ()) of
                                 Inl e \<Rightarrow> Inl e
                               | Inr _ \<Rightarrow>
                                   Inr (\<lparr>width = w, height = h\<rparr>, ws,
                                        \<lparr>lines = ls, direction = d\<rparr>))
                          | _ \<Rightarrow> Inl AlignmentError)))
           | _ \<Rightarrow> Inl BoardSizeError))"

subsection \<open>The board\<close>

definition emptyRow :: "int \<Rightarrow> board_row" where
  "emptyRow w = fold (\<lambda>c r. r(c \<mapsto> JStr [])) [0..w - 1] Map.empty"

definition createEmptyBoard :: "int dims \<Rightarrow> board" where
  "createEmptyBoard boardSize =
     fold (\<lambda>r b. b(r \<mapsto> emptyRow (width boardSize))) [0..height boardSize - 1] Map.empty"

text \<open>\<^verbatim>\<open>board[pos.row][pos.col]\<close>, read and written.\<close>

definition readCell :: "board \<Rightarrow> position \<Rightarrow> error + jsval" where
  "readCell b pos =
     (case b (row pos) of
        None \<Rightarrow> Inl TypeError
      | Some r \<Rightarrow> Inr (case r (col pos) of None \<Rightarrow> JUndefined | Some v \<Rightarrow> v))"

definition writeCell :: "board \<Rightarrow> position \<Rightarrow> jsval \<Rightarrow> error + board" where
  "writeCell b pos v =
     (case b (row pos) of
        None \<Rightarrow> Inl TypeError
      | Some r \<Rightarrow> Inr (b(row pos \<mapsto> r(col pos \<mapsto> v))))"

subsection \<open>The shape enumerator\<close>

text \<open>\<^verbatim>\<open>word.length\<close>, as a number.\<close>

abbreviation wlen :: "string \<Rightarrow> int" where
  "wlen word \<equiv> int (length word)"

definition generateHorizontalPlacements :: "string \<Rightarrow> int dims \<Rightarrow> placement list" where
  "generateHorizontalPlacements word boardSize =
     [\<lparr>type = ''horizontal'',
       positions = [\<lparr>row = r, col = c + i\<rparr>. i \<leftarrow> [0..wlen word - 1]],
       blockDimensions = None\<rparr>.
      r \<leftarrow> [0..height boardSize - 1], c \<leftarrow> [0..width boardSize - wlen word]]"

definition generateVerticalPlacements :: "string \<Rightarrow> int dims \<Rightarrow> placement list" where
  "generateVerticalPlacements word boardSize =
     [\<lparr>type = ''vertical'',
       positions = [\<lparr>row = r + i, col = c\<rparr>. i \<leftarrow> [0..wlen word - 1]],
       blockDimensions = None\<rparr>.
      r \<leftarrow> [0..height boardSize - wlen word], c \<leftarrow> [0..width boardSize - 1]]"

definition generateDiagonalPlacements :: "string \<Rightarrow> int dims \<Rightarrow> placement list" where
  "generateDiagonalPlacements word boardSize =
     [\<lparr>type = ''diagonal-down'',
       positions = [\<lparr>row = r + i, col = c + i\<rparr>. i \<leftarrow> [0..wlen word - 1]],
       blockDimensions = None\<rparr>.
      r \<leftarrow> [0..height boardSize - wlen word], c \<leftarrow> [0..width boardSize - wlen word]]
     @
     [\<lparr>type = ''diagonal-up'',
       positions = [\<lparr>row = r + i, col = c - i\<rparr>. i \<leftarrow> [0..wlen word - 1]],
       blockDimensions = None\<rparr>.
      r \<leftarrow> [0..height boardSize - wlen word], c \<leftarrow> [wlen word - 1..width boardSize - 1]]"


text \<open>The two legs of an L shape, as the two inner loops push them.\<close>

definition bendStraightHV :: "string \<Rightarrow> int \<Rightarrow> int \<Rightarrow> int \<Rightarrow> placement" where
  "bendStraightHV word startRow startCol bendPoint =
     \<lparr>type = ''bend-straight-hv'',
      positions =
        [\<lparr>row = startRow, col = startCol + i\<rparr>. i \<leftarrow> [0..bendPoint - 1]] @
        [\<lparr>row = startRow + (i - bendPoint + 1), col = startCol + bendPoint - 1\<rparr>.
           i \<leftarrow> [bendPoint..wlen word - 1]],
      blockDimensions = None\<rparr>"

definition bendStraightVH :: "string \<Rightarrow> int \<Rightarrow> int \<Rightarrow> int \<Rightarrow> placement" where
  "bendStraightVH word startRow startCol bendPoint =
     \<lparr>type = ''bend-straight-vh'',
      positions =
        [\<lparr>row = startRow + i, col = startCol\<rparr>. i \<leftarrow> [0..bendPoint - 1]] @
        [\<lparr>row = startRow + bendPoint - 1, col = startCol + (i - bendPoint + 1)\<rparr>.
           i \<leftarrow> [bendPoint..wlen word - 1]],
      blockDimensions = None\<rparr>"

definition generateBendStraightPlacements :: "string \<Rightarrow> int dims \<Rightarrow> placement list" where
  "generateBendStraightPlacements word boardSize =
     concat
       [(if startCol + bendPoint < width boardSize \<and>
            startRow + (wlen word - bendPoint) < height boardSize
         then [bendStraightHV word startRow startCol bendPoint] else []) @
        (if startRow + bendPoint < height boardSize \<and>
            startCol + (wlen word - bendPoint) < width boardSize
         then [bendStraightVH word startRow startCol bendPoint] else []).
        startRow \<leftarrow> [0..height boardSize - 1],
        startCol \<leftarrow> [0..width boardSize - 1],
        bendPoint \<leftarrow> [1..wlen word - 1]]"

text \<open>The helpers of the diagonal bend; \<open>direction\<close> is the string \<^verbatim>\<open>'down-up'\<close> at the only call.\<close>

definition isValidDiagonalBend ::
  "int \<Rightarrow> int \<Rightarrow> int \<Rightarrow> int \<Rightarrow> int dims \<Rightarrow> string \<Rightarrow> bool" where
  "isValidDiagonalBend startRow startCol bendPoint wordLength boardSize dir =
     (startRow \<ge> 0 \<and> startCol \<ge> 0 \<and>
      startRow < height boardSize \<and> startCol < width boardSize)"

definition generateDiagonalBendPositions ::
  "int \<Rightarrow> int \<Rightarrow> int \<Rightarrow> int \<Rightarrow> string \<Rightarrow> position list" where
  "generateDiagonalBendPositions startRow startCol bendPoint wordLength dir =
     [\<lparr>row = startRow, col = startCol\<rparr>]"

definition isValidPosition :: "position \<Rightarrow> int dims \<Rightarrow> bool" where
  "isValidPosition pos boardSize =
     (row pos \<ge> 0 \<and> row pos < height boardSize \<and>
      col pos \<ge> 0 \<and> col pos < width boardSize)"

definition generateBendDiagonalPlacements :: "string \<Rightarrow> int dims \<Rightarrow> placement list" where
  "generateBendDiagonalPlacements word boardSize =
     concat
       [(if isValidDiagonalBend startRow startCol bendPoint (wlen word) boardSize ''down-up''
         then
           (let positions =
              generateDiagonalBendPositions startRow startCol bendPoint (wlen word) ''down-up''
            in if list_all (\<lambda>pos. isValidPosition pos boardSize) positions
               then [\<lparr>type = ''bend-diagonal-down-up'', positions = positions,
                       blockDimensions = None\<rparr>]
               else [])
         else []).
        startRow \<leftarrow> [0..height boardSize - 1],
        startCol \<leftarrow> [0..width boardSize - 1],
        bendPoint \<leftarrow> [1..wlen word - 1]]"

text \<open>The table of block dimensions: each \<^verbatim>\<open>if\<close> pushes onto \<^verbatim>\<open>validBlocks\<close>, in source order.\<close>

definition getValidBlockDimensions :: "int \<Rightarrow> int dims list" where
  "getValidBlockDimensions wordLength =
     (if wordLength = 4 then [\<lparr>width = 2, height = 2\<rparr>] else []) @
     (if wordLength = 9 then [\<lparr>width = 3, height = 3\<rparr>] else []) @
     (if wordLength = 16 then [\<lparr>width = 4, height = 4\<rparr>] else []) @
     (if wordLength = 6 then [\<lparr>width = 2, height = 3\<rparr>, \<lparr>width = 3, height = 2\<rparr>] else []) @
     (if wordLength = 8 then [\<lparr>width = 2, height = 4\<rparr>, \<lparr>width = 4, height = 2\<rparr>] else []) @
     (if wordLength = 10 then [\<lparr>width = 2, height = 5\<rparr>, \<lparr>width = 5, height = 2\<rparr>] else []) @
     (if wordLength = 12
      then [\<lparr>width = 2, height = 6\<rparr>, \<lparr>width = 6, height = 2\<rparr>,
            \<lparr>width = 3, height = 4\<rparr>, \<lparr>width = 4, height = 3\<rparr>] else []) @
     (if wordLength = 14 then [\<lparr>width = 2, height = 7\<rparr>, \<lparr>width = 7, height = 2\<rparr>] else []) @
     (if wordLength = 15 then [\<lparr>width = 3, height = 5\<rparr>, \<lparr>width = 5, height = 3\<rparr>] else []) @
     (if wordLength = 16 then [\<lparr>width = 2, height = 8\<rparr>, \<lparr>width = 8, height = 2\<rparr>] else [])"

text \<open>The two nested loops over the block, pushing while fewer than \<open>wordLength\<close> cells are held.\<close>

definition generateBlockPositions :: "int \<Rightarrow> int \<Rightarrow> int \<Rightarrow> int \<Rightarrow> int \<Rightarrow> position list" where
  "generateBlockPositions startRow startCol blockWidth blockHeight wordLength =
     fold (\<lambda>r positions.
             fold (\<lambda>c positions.
                     if int (length positions) < wordLength
                     then positions @ [\<lparr>row = startRow + r, col = startCol + c\<rparr>]
                     else positions)
                  [0..blockWidth - 1] positions)
          [0..blockHeight - 1] []"

definition generateBlockPlacements :: "string \<Rightarrow> int dims \<Rightarrow> placement list" where
  "generateBlockPlacements word boardSize =
     [\<lparr>type = ''block'',
       positions = generateBlockPositions startRow startCol (width blk) (height blk) (wlen word),
       blockDimensions = Some blk\<rparr>.
      blk \<leftarrow> getValidBlockDimensions (wlen word),
      startRow \<leftarrow> [0..height boardSize - height blk],
      startCol \<leftarrow> [0..width boardSize - width blk]]"

definition generatePossiblePlacements ::
  "string \<Rightarrow> alignment_ok \<Rightarrow> int dims \<Rightarrow> placement list" where
  "generatePossiblePlacements word alignment boardSize =
     (if horizontal (lines alignment) then generateHorizontalPlacements word boardSize else []) @
     (if vertical (lines alignment) then generateVerticalPlacements word boardSize else []) @
     (if diagonal (lines alignment) then generateDiagonalPlacements word boardSize else []) @
     (if bendsStraight (lines alignment) then generateBendStraightPlacements word boardSize else []) @
     (if bendsDiagonal (lines alignment) then generateBendDiagonalPlacements word boardSize else []) @
     (if block (lines alignment) then generateBlockPlacements word boardSize else [])"

subsection \<open>The letter mapper\<close>

text \<open>\<^verbatim>\<open>word[index]\<close>: a one-character string, or \<^verbatim>\<open>undefined\<close> outside the word.\<close>

definition strAt :: "string \<Rightarrow> int \<Rightarrow> jsval" where
  "strAt word index =
     (if 0 \<le> index \<and> index < wlen word then JStr [word ! nat index] else JUndefined)"

text \<open>
  The letter for an index, and the number of \<^verbatim>\<open>Math.random()\<close> calls made after it
  when \<open>n\<close> were made before: none for \<^verbatim>\<open>'forward'\<close>, \<^verbatim>\<open>'backward'\<close> and the default
  case, one for \<^verbatim>\<open>'forwardBackward'\<close>, those of the sort for \<^verbatim>\<open>'scatter'\<close>.
\<close>

definition getLetterForPosition ::
  "engine \<Rightarrow> string \<Rightarrow> nat \<Rightarrow> string \<Rightarrow> nat \<Rightarrow> jsval \<times> nat" where
  "getLetterForPosition E word index dir n =
     (if dir = ''forward'' then (strAt word (int index), n)
      else if dir = ''backward'' then (strAt word (wlen word - 1 - int index), n)
      else if dir = ''forwardBackward'' then
        ((if mathRandom E n < 0.5 then strAt word (int index)
          else strAt word (wlen word - 1 - int index)), Suc n)
      else if dir = ''scatter'' then
        (let (shuffledWord, n') = sortRandom E n word in (strAt shuffledWord (int index), n'))
      else (strAt word (int index), n))"


subsection \<open>Collision check and commit\<close>

text \<open>
  The loop of \<^verbatim>\<open>canPlaceWord\<close> from index \<open>i\<close> on, over the positions not yet visited:
  it reads the cell, asks for the letter, and returns \<^verbatim>\<open>false\<close> at the first cell that
  is neither \<^verbatim>\<open>''\<close> nor the letter.
\<close>

fun canPlaceWordFrom ::
  "engine \<Rightarrow> board \<Rightarrow> string \<Rightarrow> position list \<Rightarrow> nat \<Rightarrow> string \<Rightarrow> nat \<Rightarrow> error + (bool \<times> nat)" where
  "canPlaceWordFrom E b word [] i dir n = Inr (True, n)"
| "canPlaceWordFrom E b word (pos # rest) i dir n =
     (case readCell b pos of
        Inl e \<Rightarrow> Inl e
      | Inr currentCell \<Rightarrow>
          (let (expectedLetter, n') = getLetterForPosition E word i dir n
           in if currentCell \<noteq> JStr [] \<and> currentCell \<noteq> expectedLetter then Inr (False, n')
              else canPlaceWordFrom E b word rest (Suc i) dir n'))"

definition canPlaceWord ::
  "engine \<Rightarrow> board \<Rightarrow> string \<Rightarrow> placement \<Rightarrow> string \<Rightarrow> nat \<Rightarrow> error + (bool \<times> nat)" where
  "canPlaceWord E b word plc dir n = canPlaceWordFrom E b word (positions plc) 0 dir n"

text \<open>The loop of \<^verbatim>\<open>placeWord\<close> from index \<open>i\<close> on: it asks for the letter and writes it.\<close>

fun placeWordFrom ::
  "engine \<Rightarrow> board \<Rightarrow> string \<Rightarrow> position list \<Rightarrow> nat \<Rightarrow> string \<Rightarrow> nat \<Rightarrow> error + (board \<times> nat)" where
  "placeWordFrom E b word [] i dir n = Inr (b, n)"
| "placeWordFrom E b word (pos # rest) i dir n =
     (let (letter, n') = getLetterForPosition E word i dir n
      in case writeCell b pos letter of
           Inl e \<Rightarrow> Inl e
         | Inr b' \<Rightarrow> placeWordFrom E b' word rest (Suc i) dir n')"

definition placeWord ::
  "engine \<Rightarrow> board \<Rightarrow> string \<Rightarrow> placement \<Rightarrow> string \<Rightarrow> nat \<Rightarrow> error + (board \<times> nat)" where
  "placeWord E b word plc dir n = placeWordFrom E b word (positions plc) 0 dir n"

subsection \<open>The placement engine\<close>

definition maxAttempts :: nat where
  "maxAttempts = 100"

text \<open>
  \<^verbatim>\<open>placements[Math.floor(Math.random() * placements.length)]\<close>, for the random number
  \<open>x\<close>: \<^verbatim>\<open>undefined\<close> (\<open>None\<close>) outside the array.
\<close>

definition pickPlacement :: "placement list \<Rightarrow> real \<Rightarrow> placement option" where
  "pickPlacement placements x =
     (let k = \<lfloor>x * real (length placements)\<rfloor>
      in if 0 \<le> k \<and> k < int (length placements) then Some (placements ! nat k) else None)"

definition noValidPlacements :: placementResult where
  "noValidPlacements = \<lparr>success = False, reason = Some ''No valid placements found''\<rparr>"

definition maxAttemptsReached :: placementResult where
  "maxAttemptsReached =
     \<lparr>success = False, reason = Some ''Could not find valid placement after maximum attempts''\<rparr>"

definition placed :: placementResult where
  "placed = \<lparr>success = True, reason = None\<rparr>"

text \<open>
  The \<^verbatim>\<open>while\<close> loop of \<^verbatim>\<open>placeWordOnBoard\<close>, entered with \<open>attempts\<close> attempts made.
  A placement that is \<^verbatim>\<open>undefined\<close> makes \<^verbatim>\<open>placement.positions\<close> throw.
\<close>

function placeWordLoop ::
  "engine \<Rightarrow> board \<Rightarrow> string \<Rightarrow> alignment_ok \<Rightarrow> int dims \<Rightarrow> nat \<Rightarrow> nat \<Rightarrow>
   error + (placementResult \<times> board \<times> nat)" where
  "placeWordLoop E b word alignment boardSize attempts n =
     (if attempts < maxAttempts then
        (let placements = generatePossiblePlacements word alignment boardSize
         in if length placements = 0 then Inr (noValidPlacements, b, n)
            else
              (case pickPlacement placements (mathRandom E n) of
                 None \<Rightarrow> Inl TypeError
               | Some plc \<Rightarrow>
                   (case canPlaceWord E b word plc (direction alignment) (Suc n) of
                      Inl e \<Rightarrow> Inl e
                    | Inr (ok, n') \<Rightarrow>
                        if ok then
                          (case placeWord E b word plc (direction alignment) n' of
                             Inl e \<Rightarrow> Inl e
                           | Inr (b', n'') \<Rightarrow> Inr (placed, b', n''))
                        else placeWordLoop E b word alignment boardSize (Suc attempts) n')))
      else Inr (maxAttemptsReached, b, n))"
  by pat_completeness auto
termination
  by (relation "measure (\<lambda>(E, b, word, alignment, boardSize, attempts, n). maxAttempts - attempts)")
    auto

declare placeWordLoop.simps [simp del]

definition placeWordOnBoard ::
  "engine \<Rightarrow> board \<Rightarrow> string \<Rightarrow> alignment_ok \<Rightarrow> int dims \<Rightarrow> nat \<Rightarrow>
   error + (placementResult \<times> board \<times> nat)" where
  "placeWordOnBoard E b word alignment boardSize n =
     placeWordLoop E b word alignment boardSize 0 n"

subsection \<open>The generator\<close>

text \<open>
  The loop over \<open>words\<close>. The lines \<^verbatim>\<open>console.warn\<close> has printed are collected in
  \<open>warnings\<close>.
\<close>

fun placeWords ::
  "engine \<Rightarrow> board \<Rightarrow> string list \<Rightarrow> alignment_ok \<Rightarrow> int dims \<Rightarrow> nat \<Rightarrow> string list \<Rightarrow>
   error + (board \<times> nat \<times> string list)" where
  "placeWords E b [] alignment boardSize n warnings = Inr (b, n, warnings)"
| "placeWords E b (word # words) alignment boardSize n warnings =
     (case placeWordOnBoard E b word alignment boardSize n of
        Inl e \<Rightarrow> Inl e
      | Inr (placementResult, b', n') \<Rightarrow>
          placeWords E b' words alignment boardSize n'
            (if \<not> success placementResult
             then warnings @ [''Could not place word: '' @ word] else warnings))"

text \<open>The result: the board, and with it what \<^verbatim>\<open>console.warn\<close> has printed.\<close>

definition generateWordsOnBoard ::
  "engine \<Rightarrow> jsval dims option \<Rightarrow> string list option \<Rightarrow> alignment_in option \<Rightarrow>
   error + (board \<times> string list)" where
  "generateWordsOnBoard E boardSize words alignment =
     (case validateInputs boardSize words alignment of
        Inl e \<Rightarrow> Inl e
      | Inr (bs, ws, al) \<Rightarrow>
          (case placeWords E (createEmptyBoard bs) ws al bs 0 [] of
             Inl e \<Rightarrow> Inl e
           | Inr (b, n, warnings) \<Rightarrow> Inr (b, warnings)))"

subsection \<open>The placement engine as the specification words it\<close>

text \<open>
  The specification's placement engine computes the candidate list once, fails at once
  when it is empty, and otherwise draws from that same list in each of up to 100
  attempts. \<open>placeWordLoop_reuse\<close> is that loop over a list given to it.
\<close>

function placeWordLoop_reuse ::
  "engine \<Rightarrow> board \<Rightarrow> string \<Rightarrow> string \<Rightarrow> placement list \<Rightarrow> nat \<Rightarrow> nat \<Rightarrow>
   error + (placementResult \<times> board \<times> nat)" where
  "placeWordLoop_reuse E b word dir candidates attempts n =
     (if attempts < maxAttempts then
        (case pickPlacement candidates (mathRandom E n) of
           None \<Rightarrow> Inl TypeError
         | Some plc \<Rightarrow>
             (case canPlaceWord E b word plc dir (Suc n) of
                Inl e \<Rightarrow> Inl e
              | Inr (ok, n') \<Rightarrow>
                  if ok then
                    (case placeWord E b word plc dir n' of
                       Inl e \<Rightarrow> Inl e
                     | Inr (b', n'') \<Rightarrow> Inr (placed, b', n''))
                  else placeWordLoop_reuse E b word dir candidates (Suc attempts) n'))
      else Inr (maxAttemptsReached, b, n))"
  by pat_completeness auto
termination
  by (relation "measure (\<lambda>(E, b, word, dir, candidates, attempts, n). maxAttempts - attempts)")
    auto

declare placeWordLoop_reuse.simps [simp del]

definition placeWordOnBoard_reuse ::
  "engine \<Rightarrow> board \<Rightarrow> string \<Rightarrow> alignment_ok \<Rightarrow> int dims \<Rightarrow> nat \<Rightarrow>
   error + (placementResult \<times> board \<times> nat)" where
  "placeWordOnBoard_reuse E b word alignment boardSize n =
     (let candidates = generatePossiblePlacements word alignment boardSize
      in if candidates = [] then Inr (noValidPlacements, b, n)
         else placeWordLoop_reuse E b word (direction alignment) candidates 0 n)"


subsection \<open>Inputs for the concrete runs\<close>

text \<open>An engine whose \<^verbatim>\<open>Math.random()\<close> always returns 0 and whose sort leaves the order.\<close>

definition randomZero :: engine where
  "randomZero = \<lparr>mathRandom = (\<lambda>n. 0), sortRandom = (\<lambda>n cs. (cs, n))\<rparr>"

definition noLines :: lines_flags where
  "noLines = \<lparr>horizontal = False, vertical = False, diagonal = False,
              bendsStraight = False, bendsDiagonal = False, block = False\<rparr>"

definition blockOnly :: lines_flags where
  "blockOnly = noLines\<lparr>block := True\<rparr>"

text \<open>
  An engine whose \<^verbatim>\<open>Math.random()\<close> returns 1/4 in its first eight calls and 3/4 from
  then on.
\<close>

definition randomFlip :: engine where
  "randomFlip =
     \<lparr>mathRandom = (\<lambda>n. if n < 8 then 1 / 4 else 3 / 4), sortRandom = (\<lambda>n cs. (cs, n))\<rparr>"

subsection \<open>What the engine relies on in a placement\<close>

text \<open>
  The cells of a placement are pairwise different and on the board, and there are as
  many as the word has characters, except for a diagonal bend, which has one.
\<close>

definition wellShaped :: "string \<Rightarrow> int dims \<Rightarrow> placement \<Rightarrow> bool" where
  "wellShaped word boardSize plc =
     (distinct (positions plc) \<and>
      list_all (\<lambda>pos. isValidPosition pos boardSize) (positions plc) \<and>
      length (positions plc) =
        (if type plc = ''bend-diagonal-down-up'' then 1 else length word) \<and>
      length (positions plc) \<le> length word)"

section \<open>Properties\<close>

subsection \<open>Lists built by nested loops\<close>

lemma concat_map_cong_set:
  "(\<And>x. x \<in> set xs \<Longrightarrow> f x = g x) \<Longrightarrow> concat (map f xs) = concat (map g xs)"
  by (induction xs) auto

lemma concat_concat_map:
  "concat (concat (map f xs)) = concat (map (\<lambda>x. concat (f x)) xs)"
  by (induction xs) auto

subsection \<open>Validation\<close>

lemma checkBlockLengths_ok:
  "checkBlockLengths ws = Inr () \<longleftrightarrow> (\<forall>w \<in> set ws. length w \<notin> {3, 5, 7, 11, 13})"
  by (induction ws) (auto simp: invalidLengths_def)

lemma checkBlockLengths_err:
  "checkBlockLengths ws = Inl e \<Longrightarrow>
   \<exists>w \<in> set ws. length w \<in> {3, 5, 7, 11, 13} \<and> e = BlockLengthError w (length w)"
  by (induction ws) (auto simp: invalidLengths_def split: if_splits)

subsection \<open>The only error after validation is the engine's \<^verbatim>\<open>TypeError\<close>\<close>

lemma readCell_err: "readCell b pos = Inl e \<Longrightarrow> e = TypeError"
  by (auto simp: readCell_def split: option.splits)

lemma writeCell_err: "writeCell b pos v = Inl e \<Longrightarrow> e = TypeError"
  by (auto simp: writeCell_def split: option.splits)

lemma canPlaceWordFrom_err: "canPlaceWordFrom E b word ps i dir n = Inl e \<Longrightarrow> e = TypeError"
  by (induction ps arbitrary: i n)
    (auto split: sum.splits prod.splits if_splits dest: readCell_err)

lemma placeWordFrom_err: "placeWordFrom E b word ps i dir n = Inl e \<Longrightarrow> e = TypeError"
  by (induction ps arbitrary: b i n)
    (auto split: sum.splits prod.splits if_splits dest: writeCell_err)

lemma placeWordLoop_err:
  "placeWordLoop E b word al bs attempts n = Inl e \<Longrightarrow> e = TypeError"
proof (induction E b word al bs attempts n rule: placeWordLoop.induct)
  case (1 E b word alignment boardSize attempts n)
  from "1.prems" show ?case
    apply (subst (asm) placeWordLoop.simps)
    apply (auto simp: Let_def canPlaceWord_def placeWord_def
        split: if_splits option.splits sum.splits prod.splits
        dest: canPlaceWordFrom_err placeWordFrom_err "1.IH")
    done
qed

lemma placeWords_err:
  "placeWords E b words al bs n warnings = Inl e \<Longrightarrow> e = TypeError"
  by (induction words arbitrary: b n warnings)
    (auto simp: placeWordOnBoard_def split: sum.splits prod.splits dest: placeWordLoop_err)

subsection \<open>Block mode rejects the listed lengths\<close>

text \<open>
  Claim C3. When \<^verbatim>\<open>alignment.lines.block\<close> is true and some word has length 3, 5, 7, 11
  or 13, \<open>generateWordsOnBoard\<close> throws, and the error is the one \<open>validateInputs\<close>
  throws, so that it is raised before the board is created and before any placement:
  it is the block-length error of a word of such a length, unless an earlier check of
  \<open>validateInputs\<close> (board size, alignment) has thrown first.
\<close>

theorem block_mode_rejects_lengths:
  assumes "lines alignment = Some ls" and "block ls"
    and "\<exists>w \<in> set words. length w \<in> {3, 5, 7, 11, 13}"
  shows "\<exists>e. generateWordsOnBoard E boardSize (Some words) (Some alignment) = Inl e \<and>
             validateInputs boardSize (Some words) (Some alignment) = Inl e \<and>
             (e = BoardSizeError \<or> e = AlignmentError \<or>
              (\<exists>w \<in> set words. length w \<in> {3, 5, 7, 11, 13} \<and>
                 e = BlockLengthError w (length w)))"
proof -
  from assms(3) have "checkBlockLengths words \<noteq> Inr ()"
    by (simp add: checkBlockLengths_ok)
  then obtain e where e: "checkBlockLengths words = Inl e"
    by (cases "checkBlockLengths words") auto
  from checkBlockLengths_err [OF e] e assms(1,2) show ?thesis
    by (auto simp: generateWordsOnBoard_def validateInputs_def
        split: option.splits jsval.splits)
qed

theorem block_mode_rejects_lengths_witness:
  "\<exists>e. generateWordsOnBoard randomZero (Some \<lparr>width = JNum 5, height = JNum 5\<rparr>)
          (Some [''CAT'', ''ROBOT''])
          (Some \<lparr>lines = Some blockOnly, direction = JStr ''forward''\<rparr>) = Inl e \<and>
        e = BlockLengthError ''CAT'' 3"
  using block_mode_rejects_lengths
    [of "\<lparr>lines = Some blockOnly, direction = JStr ''forward''\<rparr>"
      blockOnly "[''CAT'', ''ROBOT'']" randomZero
      "Some \<lparr>width = JNum 5, height = JNum 5\<rparr>"]
  by (simp add: blockOnly_def noLines_def generateWordsOnBoard_def validateInputs_def
      invalidLengths_def)

subsection \<open>The candidate list is recomputed, and is the same, at every attempt\<close>

lemma placeWordLoop_reuse_eq:
  "generatePossiblePlacements word al bs \<noteq> [] \<Longrightarrow>
   placeWordLoop E b word al bs attempts n =
   placeWordLoop_reuse E b word (direction al) (generatePossiblePlacements word al bs) attempts n"
proof (induction E b word al bs attempts n rule: placeWordLoop.induct)
  case (1 E b word alignment boardSize attempts n)
  show ?case
    apply (subst placeWordLoop.simps)
    apply (subst placeWordLoop_reuse.simps)
    using 1
    apply (auto simp: Let_def split: option.splits sum.splits)
    done
qed

text \<open>
  Claim C5. The candidate list is a function of the word's length, the board size and
  the shape flags: two words of equal length under the same flags get the same list,
  whatever their characters and the direction; the enumerator takes neither the board
  nor the attempt number. So the retry loop of the code, which calls the enumerator in
  every attempt, returns what the specification's loop returns, which computes the list
  once and draws from it in every attempt: the same result, board and random draws.
\<close>

theorem candidates_pure_and_reuse:
  "(length w1 = length w2 \<and> lines al1 = lines al2 \<longrightarrow>
      generatePossiblePlacements w1 al1 boardSize = generatePossiblePlacements w2 al2 boardSize) \<and>
   placeWordOnBoard E b word alignment boardSize n =
     placeWordOnBoard_reuse E b word alignment boardSize n"
proof -
  have "placeWordOnBoard E b word alignment boardSize n =
     placeWordOnBoard_reuse E b word alignment boardSize n"
  proof (cases "generatePossiblePlacements word alignment boardSize = []")
    case True
    then show ?thesis
      unfolding placeWordOnBoard_def placeWordOnBoard_reuse_def
      by (subst placeWordLoop.simps) (simp add: maxAttempts_def)
  next
    case False
    then show ?thesis
      unfolding placeWordOnBoard_def placeWordOnBoard_reuse_def
      by (simp add: placeWordLoop_reuse_eq Let_def)
  qed
  moreover have
    "generatePossiblePlacements w1 al1 boardSize = generatePossiblePlacements w2 al2 boardSize"
    if "length w1 = length w2" "lines al1 = lines al2"
    using that
    unfolding generatePossiblePlacements_def generateHorizontalPlacements_def
      generateVerticalPlacements_def generateDiagonalPlacements_def
      generateBendStraightPlacements_def bendStraightHV_def bendStraightVH_def
      generateBendDiagonalPlacements_def generateBlockPlacements_def
      generateDiagonalBendPositions_def isValidDiagonalBend_def
    by (simp cong: if_cong)
  ultimately show ?thesis by blast
qed

theorem candidates_pure_and_reuse_witness:
  "generatePossiblePlacements ''CAT''
      \<lparr>lines = noLines\<lparr>horizontal := True\<rparr>, direction = ''forward''\<rparr> \<lparr>width = 5, height = 1\<rparr> =
   generatePossiblePlacements ''DOG''
      \<lparr>lines = noLines\<lparr>horizontal := True\<rparr>, direction = ''scatter''\<rparr> \<lparr>width = 5, height = 1\<rparr> \<and>
   placeWordOnBoard randomZero (createEmptyBoard \<lparr>width = 5, height = 1\<rparr>) ''CAT''
      \<lparr>lines = noLines\<lparr>horizontal := True\<rparr>, direction = ''forward''\<rparr> \<lparr>width = 5, height = 1\<rparr> 0 =
   placeWordOnBoard_reuse randomZero (createEmptyBoard \<lparr>width = 5, height = 1\<rparr>) ''CAT''
      \<lparr>lines = noLines\<lparr>horizontal := True\<rparr>, direction = ''forward''\<rparr> \<lparr>width = 5, height = 1\<rparr> 0"
  using candidates_pure_and_reuse
    [of "''CAT''" "''DOG''" "\<lparr>lines = noLines\<lparr>horizontal := True\<rparr>, direction = ''forward''\<rparr>"
      "\<lparr>lines = noLines\<lparr>horizontal := True\<rparr>, direction = ''scatter''\<rparr>"
      "\<lparr>width = 5, height = 1\<rparr>" randomZero "createEmptyBoard \<lparr>width = 5, height = 1\<rparr>" "''CAT''"
      "\<lparr>lines = noLines\<lparr>horizontal := True\<rparr>, direction = ''forward''\<rparr>" 0]
  by simp

subsection \<open>What the board-size check accepts\<close>

text \<open>
  Claim C6, as the specification states it, fails: a width of 0 and a height of -1 are
  numbers, \<open>validateInputs\<close> accepts them, and the call returns a board with no rows.
\<close>

theorem nonpositive_size_accepted:
  "generateWordsOnBoard randomZero (Some \<lparr>width = JNum 0, height = JNum (- 1)\<rparr>) (Some [])
     (Some \<lparr>lines = Some (noLines\<lparr>horizontal := True\<rparr>), direction = JStr ''forward''\<rparr>)
   = Inr (Map.empty, [])"
  by (simp add: generateWordsOnBoard_def validateInputs_def createEmptyBoard_def)

text \<open>
  Claim C6, amended. \<open>generateWordsOnBoard\<close> throws the board-size error exactly when
  \<^verbatim>\<open>boardSize\<close> is falsy or its width or its height is not of type number; the sign
  of a numeric width or height is not checked.
\<close>

theorem board_size_error_iff_not_numeric:
  "generateWordsOnBoard E boardSize words alignment = Inl BoardSizeError \<longleftrightarrow>
     (case boardSize of
        None \<Rightarrow> True
      | Some bs \<Rightarrow> (\<nexists>w. width bs = JNum w) \<or> (\<nexists>h. height bs = JNum h))"
  by (auto simp: generateWordsOnBoard_def validateInputs_def
      split: option.splits jsval.splits sum.splits if_splits
      dest: checkBlockLengths_err placeWords_err)

theorem board_size_error_iff_not_numeric_witness:
  "generateWordsOnBoard randomZero (Some \<lparr>width = JStr ''5'', height = JNum 5\<rparr>) (Some [])
     (Some \<lparr>lines = Some noLines, direction = JStr ''forward''\<rparr>) = Inl BoardSizeError"
  using board_size_error_iff_not_numeric
    [of randomZero "Some \<lparr>width = JStr ''5'', height = JNum 5\<rparr>" "Some []"
      "Some \<lparr>lines = Some noLines, direction = JStr ''forward''\<rparr>"]
  by simp

subsection \<open>The diagonal bend\<close>

text \<open>
  Claim C9. The enumerator of diagonal bends yields, for each start cell of the board
  and each bend point from 1 to the word's length minus 1, in loop order, one placement
  tagged \<^verbatim>\<open>bend-diagonal-down-up\<close> whose positions are the start cell alone.
\<close>

theorem bendsDiagonal_single_cell:
  "generateBendDiagonalPlacements word boardSize =
     [\<lparr>type = ''bend-diagonal-down-up'', positions = [\<lparr>row = startRow, col = startCol\<rparr>],
       blockDimensions = None\<rparr>.
      startRow \<leftarrow> [0..height boardSize - 1],
      startCol \<leftarrow> [0..width boardSize - 1],
      bendPoint \<leftarrow> [1..wlen word - 1]]"
proof -
  have "concat (map (\<lambda>bendPoint.
            if isValidDiagonalBend r c bendPoint (wlen word) boardSize ''down-up''
            then (let positions =
                    generateDiagonalBendPositions r c bendPoint (wlen word) ''down-up''
                  in if list_all (\<lambda>pos. isValidPosition pos boardSize) positions
                     then [\<lparr>type = ''bend-diagonal-down-up'', positions = positions,
                             blockDimensions = None\<rparr>]
                     else [])
            else []) [1..wlen word - 1]) =
        map (\<lambda>bendPoint. \<lparr>type = ''bend-diagonal-down-up'', positions = [\<lparr>row = r, col = c\<rparr>],
                             blockDimensions = None\<rparr>) [1..wlen word - 1]"
    if "r \<in> set [0..height boardSize - 1]" "c \<in> set [0..width boardSize - 1]" for r c
    using that
    by (simp add: isValidDiagonalBend_def generateDiagonalBendPositions_def isValidPosition_def)
  then show ?thesis
    unfolding generateBendDiagonalPlacements_def concat_concat_map
    by (intro concat_map_cong_set)
qed

theorem bendsDiagonal_single_cell_witness:
  "generateBendDiagonalPlacements ''ABC'' \<lparr>width = 2, height = 1\<rparr> =
     [\<lparr>type = ''bend-diagonal-down-up'', positions = [\<lparr>row = 0, col = 0\<rparr>], blockDimensions = None\<rparr>,
      \<lparr>type = ''bend-diagonal-down-up'', positions = [\<lparr>row = 0, col = 0\<rparr>], blockDimensions = None\<rparr>,
      \<lparr>type = ''bend-diagonal-down-up'', positions = [\<lparr>row = 0, col = 1\<rparr>], blockDimensions = None\<rparr>,
      \<lparr>type = ''bend-diagonal-down-up'', positions = [\<lparr>row = 0, col = 1\<rparr>], blockDimensions = None\<rparr>]"
  using bendsDiagonal_single_cell [of "''ABC''" "\<lparr>width = 2, height = 1\<rparr>"]
  by (simp add: upto_rec1)

subsection \<open>Lengths that block mode neither rejects nor places\<close>

lemma getValidBlockDimensions_nonempty:
  "getValidBlockDimensions L \<noteq> [] \<longleftrightarrow> L \<in> {4, 6, 8, 9, 10, 12, 14, 15, 16}"
  by (simp add: getValidBlockDimensions_def)

text \<open>
  Claim C10. The lengths with a block dimension are exactly 4, 6, 8, 9, 10, 12, 14, 15
  and 16, and the block check of the validation passes exactly when no word has length
  3, 5, 7, 11 or 13. So when block is the only enabled shape and no word has a rejected
  length, validation passes, and a word whose length has no block dimension (1, 2, 17
  and more) has no block placement: \<open>placeWordOnBoard\<close> returns the failure
  \<^verbatim>\<open>No valid placements found\<close> for it, leaves the board as it was, and nothing is thrown.
\<close>

theorem block_length_gap:
  assumes "length word \<notin> {4, 6, 8, 9, 10, 12, 14, 15, 16}"
    and "\<forall>w \<in> set words. length w \<notin> {3, 5, 7, 11, 13}"
  shows "(\<forall>L. getValidBlockDimensions L \<noteq> [] \<longleftrightarrow> L \<in> {4, 6, 8, 9, 10, 12, 14, 15, 16}) \<and>
         (\<forall>ws. checkBlockLengths ws = Inr () \<longleftrightarrow>
            (\<forall>w \<in> set ws. length w \<notin> {3, 5, 7, 11, 13})) \<and>
         validateInputs (Some \<lparr>width = JNum w, height = JNum h\<rparr>) (Some words)
             (Some \<lparr>lines = Some blockOnly, direction = JStr dir\<rparr>) =
           Inr (\<lparr>width = w, height = h\<rparr>, words, \<lparr>lines = blockOnly, direction = dir\<rparr>) \<and>
         generateBlockPlacements word \<lparr>width = w, height = h\<rparr> = [] \<and>
         placeWordOnBoard E b word \<lparr>lines = blockOnly, direction = dir\<rparr>
             \<lparr>width = w, height = h\<rparr> n =
           Inr (noValidPlacements, b, n)"
proof -
  from assms(1) have nil: "getValidBlockDimensions (wlen word) = []"
    using getValidBlockDimensions_nonempty [of "wlen word"] by auto
  have gen: "generateBlockPlacements word \<lparr>width = w, height = h\<rparr> = []"
    by (simp add: generateBlockPlacements_def nil)
  have "generatePossiblePlacements word \<lparr>lines = blockOnly, direction = dir\<rparr>
          \<lparr>width = w, height = h\<rparr> = []"
    by (simp add: generatePossiblePlacements_def blockOnly_def noLines_def gen)
  then have "placeWordOnBoard E b word \<lparr>lines = blockOnly, direction = dir\<rparr>
               \<lparr>width = w, height = h\<rparr> n = Inr (noValidPlacements, b, n)"
    unfolding placeWordOnBoard_def
    by (subst placeWordLoop.simps) (simp add: maxAttempts_def)
  moreover from assms(2) have "checkBlockLengths words = Inr ()"
    by (simp add: checkBlockLengths_ok)
  then have "validateInputs (Some \<lparr>width = JNum w, height = JNum h\<rparr>) (Some words)
             (Some \<lparr>lines = Some blockOnly, direction = JStr dir\<rparr>) =
           Inr (\<lparr>width = w, height = h\<rparr>, words, \<lparr>lines = blockOnly, direction = dir\<rparr>)"
    by (simp add: validateInputs_def blockOnly_def noLines_def)
  ultimately show ?thesis
    using gen getValidBlockDimensions_nonempty checkBlockLengths_ok by blast
qed

theorem block_length_gap_witness:
  "length ''AB'' \<notin> {4, 6, 8, 9, 10, 12, 14, 15, 16::nat} \<and>
   validateInputs (Some \<lparr>width = JNum 5, height = JNum 5\<rparr>)
       (Some [''AB'', ''ABCDEFGHIJKLMNOPQ''])
       (Some \<lparr>lines = Some blockOnly, direction = JStr ''forward''\<rparr>) =
     Inr (\<lparr>width = 5, height = 5\<rparr>, [''AB'', ''ABCDEFGHIJKLMNOPQ''],
          \<lparr>lines = blockOnly, direction = ''forward''\<rparr>) \<and>
   placeWordOnBoard randomZero (createEmptyBoard \<lparr>width = 5, height = 5\<rparr>) ''AB''
       \<lparr>lines = blockOnly, direction = ''forward''\<rparr> \<lparr>width = 5, height = 5\<rparr> 0 =
     Inr (noValidPlacements, createEmptyBoard \<lparr>width = 5, height = 5\<rparr>, 0)"
  using block_length_gap [of "''AB''" "[''AB'', ''ABCDEFGHIJKLMNOPQ'']" 5 5 "''forward''"
      randomZero "createEmptyBoard \<lparr>width = 5, height = 5\<rparr>" 0]
  by simp

subsection \<open>The cells of the placements\<close>

lemma distinct_grid:
  assumes "distinct rs" "distinct cs"
    and "\<And>r c r' c'. f r c = f r' c' \<Longrightarrow> r = r' \<and> c = c'"
  shows "distinct (concat (map (\<lambda>r. map (f r) cs) rs))"
  using assms(1)
proof (induction rs)
  case Nil
  then show ?case by simp
next
  case (Cons r rs)
  have "distinct (map (f r) cs)"
    using assms(2,3) by (auto simp: distinct_map inj_on_def)
  with Cons assms(3) show ?case by auto
qed

lemma length_grid: "length (concat (map (\<lambda>r. map (f r) cs) rs)) = length rs * length cs"
  by (induction rs) auto

lemma blockRow_fold:
  "fold (\<lambda>c positions. if int (length positions) < L then positions @ [f c] else positions) cs acc =
   acc @ take (nat L - length acc) (map f cs)"
proof (induction cs arbitrary: acc)
  case Nil
  then show ?case by simp
next
  case (Cons c cs)
  show ?case
  proof (cases "int (length acc) < L")
    case True
    then have "nat L - length acc = Suc (nat L - Suc (length acc))" by linarith
    with True Cons show ?thesis by simp
  next
    case False
    then have "nat L - length acc = 0" by linarith
    with False Cons show ?thesis by simp
  qed
qed

lemma blockRows_take:
  "fold (\<lambda>r a. a @ take (n - length a) (g r)) rs acc =
   acc @ take (n - length acc) (concat (map g rs))"
proof (induction rs arbitrary: acc)
  case Nil
  then show ?case by simp
next
  case (Cons r rs)
  have "n - (length acc + min (length (g r)) (n - length acc)) = n - length acc - length (g r)"
    by linarith
  with Cons show ?case by simp
qed

lemma generateBlockPositions_take:
  "generateBlockPositions startRow startCol blockWidth blockHeight wordLength =
     take (nat wordLength)
       [\<lparr>row = startRow + r, col = startCol + c\<rparr>. r \<leftarrow> [0..blockHeight - 1], c \<leftarrow> [0..blockWidth - 1]]"
proof -
  have "(\<lambda>r. fold (\<lambda>c positions.
                     if int (length positions) < wordLength
                     then positions @ [\<lparr>row = startRow + r, col = startCol + c\<rparr>]
                     else positions) [0..blockWidth - 1]) =
        (\<lambda>r a. a @ take (nat wordLength - length a)
                 (map (\<lambda>c. \<lparr>row = startRow + r, col = startCol + c\<rparr>) [0..blockWidth - 1]))"
    by (intro ext) (rule blockRow_fold)
  then show ?thesis
    unfolding generateBlockPositions_def
    by (simp add: blockRows_take)
qed


lemma wellShaped_horizontal:
  "plc \<in> set (generateHorizontalPlacements word bs) \<Longrightarrow> wellShaped word bs plc"
  by (auto simp: generateHorizontalPlacements_def wellShaped_def isValidPosition_def
      distinct_map inj_on_def list_all_iff)

lemma wellShaped_vertical:
  "plc \<in> set (generateVerticalPlacements word bs) \<Longrightarrow> wellShaped word bs plc"
  by (auto simp: generateVerticalPlacements_def wellShaped_def isValidPosition_def
      distinct_map inj_on_def list_all_iff)

lemma wellShaped_diagonal:
  "plc \<in> set (generateDiagonalPlacements word bs) \<Longrightarrow> wellShaped word bs plc"
  by (auto simp: generateDiagonalPlacements_def wellShaped_def isValidPosition_def
      distinct_map inj_on_def list_all_iff)

lemma wellShaped_bendHV:
  assumes "0 \<le> sr" "0 \<le> sc" "1 \<le> k" "k \<le> wlen word - 1"
    and "sc + k < width bs" "sr + (wlen word - k) < height bs"
  shows "wellShaped word bs (bendStraightHV word sr sc k)"
  using assms
  by (auto simp: bendStraightHV_def wellShaped_def isValidPosition_def
      distinct_map inj_on_def list_all_iff)

lemma wellShaped_bendVH:
  assumes "0 \<le> sr" "0 \<le> sc" "1 \<le> k" "k \<le> wlen word - 1"
    and "sr + k < height bs" "sc + (wlen word - k) < width bs"
  shows "wellShaped word bs (bendStraightVH word sr sc k)"
  using assms
  by (auto simp: bendStraightVH_def wellShaped_def isValidPosition_def
      distinct_map inj_on_def list_all_iff)

lemma wellShaped_bendStraight:
  "plc \<in> set (generateBendStraightPlacements word bs) \<Longrightarrow> wellShaped word bs plc"
  by (auto simp: generateBendStraightPlacements_def split: if_splits
      intro: wellShaped_bendHV wellShaped_bendVH)

lemma wellShaped_bendDiagonal:
  "plc \<in> set (generateBendDiagonalPlacements word bs) \<Longrightarrow> wellShaped word bs plc"
  by (auto simp: generateBendDiagonalPlacements_def wellShaped_def isValidDiagonalBend_def
      generateDiagonalBendPositions_def Let_def split: if_splits)

lemma blockDimensions_area:
  "blk \<in> set (getValidBlockDimensions L) \<Longrightarrow>
   0 < width blk \<and> 0 < height blk \<and> nat (height blk) * nat (width blk) = nat L"
  by (auto simp: getValidBlockDimensions_def split: if_splits)

lemma wellShaped_block:
  assumes "plc \<in> set (generateBlockPlacements word bs)"
  shows "wellShaped word bs plc"
proof -
  from assms obtain blk sr sc where blk: "blk \<in> set (getValidBlockDimensions (wlen word))"
    and sr: "0 \<le> sr" "sr \<le> height bs - height blk"
    and sc: "0 \<le> sc" "sc \<le> width bs - width blk"
    and plc: "plc = \<lparr>type = ''block'',
       positions = generateBlockPositions sr sc (width blk) (height blk) (wlen word),
       blockDimensions = Some blk\<rparr>"
    by (auto simp: generateBlockPlacements_def)
  let ?grid = "concat (map (\<lambda>r. map (\<lambda>c. \<lparr>row = sr + r, col = sc + c\<rparr>) [0..width blk - 1])
                 [0..height blk - 1])"
  have pos: "positions plc = take (length word) ?grid"
    by (simp add: plc generateBlockPositions_take)
  have len: "length ?grid = length word"
    using blockDimensions_area [OF blk] by (simp add: length_grid)
  have "distinct ?grid"
    by (rule distinct_grid) auto
  moreover have "list_all (\<lambda>pos. isValidPosition pos bs) ?grid"
    using sr sc by (auto simp: list_all_iff isValidPosition_def)
  moreover have "positions plc = ?grid"
    using pos len by simp
  moreover have "type plc = ''block''"
    by (simp add: plc)
  ultimately show ?thesis
    using len by (simp add: wellShaped_def)
qed

lemma wellShaped_candidates:
  "plc \<in> set (generatePossiblePlacements word al bs) \<Longrightarrow> wellShaped word bs plc"
  by (auto simp: generatePossiblePlacements_def split: if_splits
      intro: wellShaped_horizontal wellShaped_vertical wellShaped_diagonal
        wellShaped_bendStraight wellShaped_bendDiagonal wellShaped_block)

subsection \<open>Reading and writing the board\<close>

lemma fold_upd_apply:
  "fold (\<lambda>k m. m(k \<mapsto> f k)) ks m0 x = (if x \<in> set ks then Some (f x) else m0 x)"
  by (induction ks arbitrary: m0) auto

lemma emptyRow_apply:
  "emptyRow w c = (if 0 \<le> c \<and> c < w then Some (JStr []) else None)"
  by (auto simp: emptyRow_def fold_upd_apply)

lemma createEmptyBoard_apply:
  "createEmptyBoard bs r =
     (if 0 \<le> r \<and> r < height bs then Some (emptyRow (width bs)) else None)"
  by (auto simp: createEmptyBoard_def fold_upd_apply)

lemma createEmptyBoard_rows: "{0..height bs - 1} \<subseteq> dom (createEmptyBoard bs)"
  by (auto simp: createEmptyBoard_apply)

lemma readCell_ok:
  "isValidPosition pos bs \<Longrightarrow> {0..height bs - 1} \<subseteq> dom b \<Longrightarrow> \<exists>v. readCell b pos = Inr v"
  by (auto simp: readCell_def isValidPosition_def split: option.splits)

lemma writeCell_dom: "writeCell b pos v = Inr b' \<Longrightarrow> dom b' = dom b"
  by (auto simp: writeCell_def split: option.splits if_splits)

lemma writeCell_ok:
  "isValidPosition pos bs \<Longrightarrow> {0..height bs - 1} \<subseteq> dom b \<Longrightarrow> \<exists>b'. writeCell b pos v = Inr b'"
  by (auto simp: writeCell_def isValidPosition_def split: option.splits)

lemma canPlaceWordFrom_ok:
  "list_all (\<lambda>pos. isValidPosition pos bs) ps \<Longrightarrow> {0..height bs - 1} \<subseteq> dom b \<Longrightarrow>
   \<exists>res. canPlaceWordFrom E b word ps i dir n = Inr res"
proof (induction ps arbitrary: i n)
  case Nil
  show ?case by (rule exI [of _ "(True, n)"]) simp
next
  case (Cons pos ps)
  then obtain v where v: "readCell b pos = Inr v"
    using readCell_ok [of pos bs b] by auto
  obtain letter n1 where l: "getLetterForPosition E word i dir n = (letter, n1)"
    by (cases "getLetterForPosition E word i dir n")
  show ?case
  proof (cases "v \<noteq> JStr [] \<and> v \<noteq> letter")
    case True
    with v l show ?thesis by (intro exI [of _ "(False, n1)"]) simp
  next
    case False
    with v l Cons.IH [of "Suc i" n1] Cons.prems show ?thesis by auto
  qed
qed

lemma placeWordFrom_dom:
  "placeWordFrom E b word ps i dir n = Inr (b', n') \<Longrightarrow> dom b' = dom b"
proof (induction ps arbitrary: b i n)
  case Nil
  then show ?case by simp
next
  case (Cons pos ps)
  obtain letter n1 where l: "getLetterForPosition E word i dir n = (letter, n1)"
    by (cases "getLetterForPosition E word i dir n")
  with Cons.prems obtain b1 where w: "writeCell b pos letter = Inr b1"
    and r: "placeWordFrom E b1 word ps (Suc i) dir n1 = Inr (b', n')"
    by (auto split: sum.splits)
  from Cons.IH [OF r] writeCell_dom [OF w] show ?case by simp
qed

lemma placeWordFrom_ok:
  "list_all (\<lambda>pos. isValidPosition pos bs) ps \<Longrightarrow> {0..height bs - 1} \<subseteq> dom b \<Longrightarrow>
   \<exists>b' n'. placeWordFrom E b word ps i dir n = Inr (b', n')"
proof (induction ps arbitrary: b i n)
  case Nil
  then show ?case by simp
next
  case (Cons pos ps)
  obtain letter n1 where l: "getLetterForPosition E word i dir n = (letter, n1)"
    by (cases "getLetterForPosition E word i dir n")
  from Cons.prems obtain b1 where w: "writeCell b pos letter = Inr b1"
    using writeCell_ok [of pos bs b letter] by auto
  then have "{0..height bs - 1} \<subseteq> dom b1"
    using Cons.prems writeCell_dom by blast
  with Cons.IH [of b1 "Suc i" n1] Cons.prems l w show ?case
    by auto
qed

lemma pickPlacement_ok:
  assumes "0 \<le> x" "x < 1" "ps \<noteq> []"
  shows "\<exists>plc \<in> set ps. pickPlacement ps x = Some plc"
proof -
  let ?k = "\<lfloor>x * real (length ps)\<rfloor>"
  have pos: "0 < real (length ps)" using assms(3) by simp
  have "0 \<le> x * real (length ps)" using assms(1) by simp
  then have k0: "0 \<le> ?k" by simp
  have "x * real (length ps) < real (length ps)"
    using assms(2) pos by simp
  then have "?k < int (length ps)"
    by (simp add: floor_less_iff)
  with k0 have "nat ?k < length ps" by linarith
  then have "ps ! nat ?k \<in> set ps" by (rule nth_mem)
  with k0 \<open>?k < int (length ps)\<close> show ?thesis
    by (simp add: pickPlacement_def Let_def)
qed

lemma pickPlacement_mem: "pickPlacement ps x = Some plc \<Longrightarrow> plc \<in> set ps"
proof -
  assume a: "pickPlacement ps x = Some plc"
  let ?k = "\<lfloor>x * real (length ps)\<rfloor>"
  from a have k: "0 \<le> ?k" "?k < int (length ps)" and plc: "plc = ps ! nat ?k"
    by (auto simp: pickPlacement_def Let_def split: if_splits)
  from k have "nat ?k < length ps" by linarith
  then show ?thesis unfolding plc by (rule nth_mem)
qed

text \<open>What a successful or failed attempt loop has done.\<close>

lemma placeWordLoop_step:
  assumes "placeWordLoop E b word al bs attempts n = Inr (res, b', n')"
  shows "(res = maxAttemptsReached \<and> b' = b) \<or> (res = noValidPlacements \<and> b' = b) \<or>
   (\<exists>plc \<in> set (generatePossiblePlacements word al bs). \<exists>n1.
      (res = placed \<and>
       canPlaceWord E b word plc (direction al) (Suc n) = Inr (True, n1) \<and>
       placeWord E b word plc (direction al) n1 = Inr (b', n')) \<or>
      (attempts < maxAttempts \<and>
       canPlaceWord E b word plc (direction al) (Suc n) = Inr (False, n1) \<and>
       placeWordLoop E b word al bs (Suc attempts) n1 = Inr (res, b', n')))"
proof (cases "attempts < maxAttempts")
  case False
  with assms show ?thesis
    by (subst (asm) placeWordLoop.simps) simp
next
  case lt: True
  show ?thesis
  proof (cases "generatePossiblePlacements word al bs = []")
    case True
    with assms lt show ?thesis
      by (subst (asm) placeWordLoop.simps) simp
  next
    case ne: False
    from assms lt ne obtain plc ok n1
      where pick: "pickPlacement (generatePossiblePlacements word al bs) (mathRandom E n) = Some plc"
        and can: "canPlaceWord E b word plc (direction al) (Suc n) = Inr (ok, n1)"
        and rest: "(if ok then
                      (case placeWord E b word plc (direction al) n1 of
                         Inl e \<Rightarrow> Inl e
                       | Inr (b', n'') \<Rightarrow> Inr (placed, b', n''))
                    else placeWordLoop E b word al bs (Suc attempts) n1) = Inr (res, b', n')"
      by (subst (asm) placeWordLoop.simps)
        (auto simp: Let_def split: option.splits sum.splits prod.splits)
    from pick have mem: "plc \<in> set (generatePossiblePlacements word al bs)"
      by (rule pickPlacement_mem)
    show ?thesis
    proof (cases ok)
      case True
      with rest have "res = placed" "placeWord E b word plc (direction al) n1 = Inr (b', n')"
        by (auto split: sum.splits prod.splits)
      moreover from can True
      have "canPlaceWord E b word plc (direction al) (Suc n) = Inr (True, n1)" by simp
      ultimately show ?thesis using mem by blast
    next
      case False
      with rest have "placeWordLoop E b word al bs (Suc attempts) n1 = Inr (res, b', n')"
        by simp
      moreover from can False
      have "canPlaceWord E b word plc (direction al) (Suc n) = Inr (False, n1)" by simp
      ultimately show ?thesis using mem lt by blast
    qed
  qed
qed

lemma placeWordLoop_result:
  "placeWordLoop E b word al bs attempts n = Inr (res, b', n') \<Longrightarrow>
   (if success res
    then \<exists>plc \<in> set (generatePossiblePlacements word al bs). \<exists>m m'.
           canPlaceWord E b word plc (direction al) m = Inr (True, m') \<and>
           placeWord E b word plc (direction al) m' = Inr (b', n')
    else b' = b)"
proof (induction "maxAttempts - attempts" arbitrary: attempts n)
  case 0
  from placeWordLoop_step [OF "0.prems"] "0.hyps" show ?case
    by (auto simp: maxAttemptsReached_def noValidPlacements_def placed_def)
next
  case (Suc k)
  from placeWordLoop_step [OF Suc.prems] show ?case
  proof (elim disjE bexE exE conjE)
    fix plc n1
    assume "placeWordLoop E b word al bs (Suc attempts) n1 = Inr (res, b', n')"
    moreover from Suc.hyps(2) have "k = maxAttempts - Suc attempts" by simp
    ultimately show ?thesis by (rule Suc.hyps(1) [rotated])
  qed (auto simp: maxAttemptsReached_def noValidPlacements_def placed_def)
qed

subsection \<open>Nothing is thrown after validation\<close>

lemma wellShaped_valid:
  "wellShaped word bs plc \<Longrightarrow> list_all (\<lambda>pos. isValidPosition pos bs) (positions plc)"
  by (simp add: wellShaped_def)

lemma placeWordLoop_ok:
  assumes "\<forall>k. 0 \<le> mathRandom E k \<and> mathRandom E k < 1" "{0..height bs - 1} \<subseteq> dom b"
  shows "\<exists>res b' n'. placeWordLoop E b word al bs attempts n = Inr (res, b', n')"
proof (induction "maxAttempts - attempts" arbitrary: attempts n)
  case 0
  then show ?case
    by (subst placeWordLoop.simps) simp
next
  case (Suc k)
  let ?ps = "generatePossiblePlacements word al bs"
  show ?case
  proof (cases "?ps = []")
    case True
    then show ?thesis
      by (subst placeWordLoop.simps) simp
  next
    case False
    with assms(1) obtain plc where mem: "plc \<in> set ?ps"
      and pick: "pickPlacement ?ps (mathRandom E n) = Some plc"
      using pickPlacement_ok [of "mathRandom E n" ?ps] by auto
    from mem have valid: "list_all (\<lambda>pos. isValidPosition pos bs) (positions plc)"
      by (intro wellShaped_valid wellShaped_candidates)
    from canPlaceWordFrom_ok [OF valid assms(2)]
    obtain ok n1 where can: "canPlaceWord E b word plc (direction al) (Suc n) = Inr (ok, n1)"
      unfolding canPlaceWord_def by fastforce
    from placeWordFrom_ok [OF valid assms(2)]
    obtain b' n2 where put: "placeWord E b word plc (direction al) n1 = Inr (b', n2)"
      unfolding placeWord_def by fastforce
    from Suc.hyps(2) have "k = maxAttempts - Suc attempts" by simp
    from Suc.hyps(1) [OF this]
    obtain res' b'' n'' where "placeWordLoop E b word al bs (Suc attempts) n1 = Inr (res', b'', n'')"
      by blast
    with False pick can put show ?thesis
      by (subst placeWordLoop.simps) (auto simp: Let_def)
  qed
qed

lemma placeWordOnBoard_ok:
  assumes "\<forall>k. 0 \<le> mathRandom E k \<and> mathRandom E k < 1" "{0..height bs - 1} \<subseteq> dom b"
  shows "\<exists>res b' n'. placeWordOnBoard E b word al bs n = Inr (res, b', n') \<and>
           dom b' = dom b \<and> (\<not> success res \<longrightarrow> b' = b)"
proof -
  from placeWordLoop_ok [OF assms] obtain res b' n'
    where r: "placeWordLoop E b word al bs 0 n = Inr (res, b', n')"
    by blast
  have keep: "\<not> success res \<longrightarrow> b' = b"
    using placeWordLoop_result [OF r] by (simp split: if_splits)
  have "dom b' = dom b"
  proof (cases "success res")
    case True
    with placeWordLoop_result [OF r] obtain plc :: placement and m'
      where "placeWordFrom E b word (positions plc) 0 (direction al) m' = Inr (b', n')"
      unfolding placeWord_def by force
    then show ?thesis by (rule placeWordFrom_dom)
  next
    case False
    with keep show ?thesis by simp
  qed
  with r keep show ?thesis
    by (simp add: placeWordOnBoard_def)
qed

lemma placeWords_ok:
  assumes "\<forall>k. 0 \<le> mathRandom E k \<and> mathRandom E k < 1"
  shows "{0..height bs - 1} \<subseteq> dom b \<Longrightarrow>
         \<exists>b' n' warnings'. placeWords E b ws al bs n warnings = Inr (b', n', warnings') \<and>
           dom b' = dom b"
proof (induction ws arbitrary: b n warnings)
  case Nil
  then show ?case by simp
next
  case (Cons w ws)
  from placeWordOnBoard_ok [OF assms Cons.prems, of w al n]
  obtain res b1 n1 where step: "placeWordOnBoard E b w al bs n = Inr (res, b1, n1)"
    and d: "dom b1 = dom b"
    by blast
  with Cons.prems have "{0..height bs - 1} \<subseteq> dom b1" by simp
  from Cons.IH [OF this] step d show ?case
    by simp
qed

lemma placeWords_append:
  "placeWords E b (xs @ ys) al bs n warnings =
     (case placeWords E b xs al bs n warnings of
        Inl e \<Rightarrow> Inl e
      | Inr (b1, n1, warnings1) \<Rightarrow> placeWords E b1 ys al bs n1 warnings1)"
  by (induction xs arbitrary: b n warnings) (auto split: sum.splits)


subsection \<open>Facts for running the code on a concrete input\<close>

lemmas run_simps =
  generateWordsOnBoard_def validateInputs_def placeWordOnBoard_def placeWordLoop.simps
  maxAttempts_def generatePossiblePlacements_def generateHorizontalPlacements_def
  pickPlacement_def canPlaceWord_def placeWord_def getLetterForPosition_def strAt_def
  readCell_def writeCell_def createEmptyBoard_apply emptyRow_apply noLines_def
  randomZero_def randomFlip_def upto_rec1 Let_def placed_def noValidPlacements_def
  maxAttemptsReached_def

subsection \<open>Every placement lies on the board\<close>

text \<open>
  Claim C7. Every position of every placement the enumerator produces, whichever shapes
  are enabled, has its row in \<open>[0, height)\<close> and its column in \<open>[0, width)\<close>, and is a
  cell of the board \<open>createEmptyBoard\<close> makes. So on any board that has the rows of that
  board, the collision check and the write of such a placement index an existing row:
  neither throws, in any direction mode and for any random draws.
\<close>

theorem placements_on_board:
  "\<forall>plc \<in> set (generatePossiblePlacements word alignment boardSize).
     (\<forall>pos \<in> set (positions plc).
        0 \<le> row pos \<and> row pos < height boardSize \<and> 0 \<le> col pos \<and> col pos < width boardSize \<and>
        readCell (createEmptyBoard boardSize) pos = Inr (JStr [])) \<and>
     (\<forall>b. dom b = dom (createEmptyBoard boardSize) \<longrightarrow>
        (\<forall>E dir n. (\<exists>r. canPlaceWord E b word plc dir n = Inr r) \<and>
                   (\<exists>r. placeWord E b word plc dir n = Inr r)))"
proof (intro ballI conjI allI impI)
  fix plc pos
  assume "plc \<in> set (generatePossiblePlacements word alignment boardSize)"
  then have v: "list_all (\<lambda>pos. isValidPosition pos boardSize) (positions plc)"
    by (intro wellShaped_valid wellShaped_candidates)
  {
    assume "pos \<in> set (positions plc)"
    with v have "isValidPosition pos boardSize" by (simp add: list_all_iff)
    then show "0 \<le> row pos" "row pos < height boardSize" "0 \<le> col pos" "col pos < width boardSize"
      "readCell (createEmptyBoard boardSize) pos = Inr (JStr [])"
      by (simp_all add: isValidPosition_def readCell_def createEmptyBoard_apply emptyRow_apply)
  }
  fix b :: board and E dir n
  assume "dom b = dom (createEmptyBoard boardSize)"
  then have rows: "{0..height boardSize - 1} \<subseteq> dom b"
    using createEmptyBoard_rows by simp
  from canPlaceWordFrom_ok [OF v rows] show "\<exists>r. canPlaceWord E b word plc dir n = Inr r"
    by (simp add: canPlaceWord_def)
  from placeWordFrom_ok [OF v rows] show "\<exists>r. placeWord E b word plc dir n = Inr r"
    by (simp add: placeWord_def)
qed

theorem placements_on_board_witness:
  "list_all (\<lambda>plc. list_all (\<lambda>pos. isValidPosition pos \<lparr>width = 3, height = 1\<rparr>) (positions plc))
     (generatePossiblePlacements ''AB''
        \<lparr>lines = noLines\<lparr>horizontal := True\<rparr>, direction = ''forward''\<rparr> \<lparr>width = 3, height = 1\<rparr>) \<and>
   length (generatePossiblePlacements ''AB''
        \<lparr>lines = noLines\<lparr>horizontal := True\<rparr>, direction = ''forward''\<rparr> \<lparr>width = 3, height = 1\<rparr>) = 2"
proof -
  let ?G = "generatePossiblePlacements ''AB''
        \<lparr>lines = noLines\<lparr>horizontal := True\<rparr>, direction = ''forward''\<rparr> \<lparr>width = 3, height = 1\<rparr>"
  from placements_on_board [of "''AB''" "\<lparr>lines = noLines\<lparr>horizontal := True\<rparr>, direction = ''forward''\<rparr>"
      "\<lparr>width = 3, height = 1\<rparr>"]
  have "\<forall>plc \<in> set ?G. \<forall>pos \<in> set (positions plc).
          isValidPosition pos \<lparr>width = 3, height = 1\<rparr>"
    unfolding isValidPosition_def by fastforce
  then have "list_all (\<lambda>plc. list_all (\<lambda>pos. isValidPosition pos \<lparr>width = 3, height = 1\<rparr>)
     (positions plc)) ?G"
    by (simp only: list_all_iff)
  moreover have "length ?G = 2"
    by (simp add: run_simps)
  ultimately show ?thesis by (rule conjI)
qed

subsection \<open>A word that cannot be placed does not stop the run\<close>

text \<open>
  Claim C8. When validation has passed (and \<^verbatim>\<open>Math.random()\<close> returns numbers in
  \<open>[0, 1)\<close>), \<open>generateWordsOnBoard\<close> returns a board and throws nothing. Every word of
  the list, wherever it stands, is attempted on the board that the words before it have
  left, whether they were placed or not; a word that is not placed leaves the board as
  it was and adds its warning; and the words after it are run from there to the board
  that is returned.
\<close>

theorem failure_containment:
  assumes "validateInputs boardSize words alignment = Inr (bs, ws, al)"
    and "\<forall>k. 0 \<le> mathRandom E k \<and> mathRandom E k < 1"
  shows "\<exists>bf nf warnings.
           placeWords E (createEmptyBoard bs) ws al bs 0 [] = Inr (bf, nf, warnings) \<and>
           generateWordsOnBoard E boardSize words alignment = Inr (bf, warnings) \<and>
           (\<forall>ws1 w ws2. ws = ws1 @ w # ws2 \<longrightarrow>
              (\<exists>b1 n1 warnings1 res b2 n2.
                 placeWords E (createEmptyBoard bs) ws1 al bs 0 [] = Inr (b1, n1, warnings1) \<and>
                 placeWordOnBoard E b1 w al bs n1 = Inr (res, b2, n2) \<and>
                 (\<not> success res \<longrightarrow> b2 = b1) \<and>
                 placeWords E b2 ws2 al bs n2
                   (if \<not> success res then warnings1 @ [''Could not place word: '' @ w]
                    else warnings1) = Inr (bf, nf, warnings)))"
proof -
  let ?b0 = "createEmptyBoard bs"
  note rows = createEmptyBoard_rows [of bs]
  from placeWords_ok [OF assms(2) rows] obtain bf nf warnings
    where run: "placeWords E ?b0 ws al bs 0 [] = Inr (bf, nf, warnings)"
    by blast
  have "\<exists>b1 n1 warnings1 res b2 n2.
          placeWords E ?b0 ws1 al bs 0 [] = Inr (b1, n1, warnings1) \<and>
          placeWordOnBoard E b1 w al bs n1 = Inr (res, b2, n2) \<and>
          (\<not> success res \<longrightarrow> b2 = b1) \<and>
          placeWords E b2 ws2 al bs n2
            (if \<not> success res then warnings1 @ [''Could not place word: '' @ w]
             else warnings1) = Inr (bf, nf, warnings)"
    if split: "ws = ws1 @ w # ws2" for ws1 w ws2
  proof -
    from placeWords_ok [OF assms(2) rows] obtain b1 n1 warnings1
      where r1: "placeWords E ?b0 ws1 al bs 0 [] = Inr (b1, n1, warnings1)"
        and d1: "dom b1 = dom ?b0"
      by blast
    from d1 rows have "{0..height bs - 1} \<subseteq> dom b1" by simp
    from placeWordOnBoard_ok [OF assms(2) this] obtain res b2 n2
      where r2: "placeWordOnBoard E b1 w al bs n1 = Inr (res, b2, n2)"
        and keep: "\<not> success res \<longrightarrow> b2 = b1"
      by blast
    from run r1 r2 have "placeWords E b2 ws2 al bs n2
            (if \<not> success res then warnings1 @ [''Could not place word: '' @ w]
             else warnings1) = Inr (bf, nf, warnings)"
      by (simp add: split placeWords_append)
    with r1 r2 keep show ?thesis by blast
  qed
  with run assms(1) show ?thesis
    by (simp add: generateWordsOnBoard_def)
qed

theorem failure_containment_witness:
  "\<exists>bf. generateWordsOnBoard randomZero (Some \<lparr>width = JNum 3, height = JNum 1\<rparr>)
          (Some [''TOOLONG'', ''CAT''])
          (Some \<lparr>lines = Some (noLines\<lparr>horizontal := True\<rparr>), direction = JStr ''forward''\<rparr>) =
        Inr (bf, [''Could not place word: TOOLONG'']) \<and>
        readCell bf \<lparr>row = 0, col = 0\<rparr> = Inr (JStr ''C'')"
proof -
  let ?bs = "\<lparr>width = 3, height = 1\<rparr> :: int dims"
  let ?al = "\<lparr>lines = noLines\<lparr>horizontal := True\<rparr>, direction = ''forward''\<rparr>"
  let ?bsr = "Some \<lparr>width = JNum 3, height = JNum 1\<rparr>"
  let ?alr = "Some \<lparr>lines = Some (noLines\<lparr>horizontal := True\<rparr>), direction = JStr ''forward''\<rparr>"
  have v: "validateInputs ?bsr (Some [''TOOLONG'', ''CAT'']) ?alr =
             Inr (?bs, [''TOOLONG'', ''CAT''], ?al)"
    by (simp add: run_simps)
  have r: "\<forall>k. 0 \<le> mathRandom randomZero k \<and> mathRandom randomZero k < 1"
    by (simp add: randomZero_def)
  from failure_containment [OF v r] obtain bf warnings
    where g: "generateWordsOnBoard randomZero ?bsr (Some [''TOOLONG'', ''CAT'']) ?alr =
                Inr (bf, warnings)"
    by blast
  have "map_sum id (\<lambda>(b, ws). (readCell b \<lparr>row = 0, col = 0\<rparr>, ws))
          (generateWordsOnBoard randomZero ?bsr (Some [''TOOLONG'', ''CAT'']) ?alr) =
        Inr (Inr (JStr ''C''), [''Could not place word: TOOLONG''])"
    by (simp add: run_simps)
  with g have "warnings = [''Could not place word: TOOLONG'']"
    "readCell bf \<lparr>row = 0, col = 0\<rparr> = Inr (JStr ''C'')"
    by simp_all
  with g show ?thesis by blast
qed

subsection \<open>The bound check of the L shapes\<close>

text \<open>
  Claim C4, on the failing input: the word \<^verbatim>\<open>AB\<close> on a board of width 2 and height 2.
  The enumerator yields two placements, both starting at row 0, column 0. The
  horizontal-then-vertical placement for start row 0, start column 1 and bend point 1
  has the positions (0, 1) and (1, 1), which are both on the board, and it is not in the
  enumerator's output: the check \<^verbatim>\<open>startCol + bendPoint < boardSize.width\<close> asks for one
  column more than the positions use.
\<close>

theorem bendsStraight_skips_last_column:
  "generateBendStraightPlacements ''AB'' \<lparr>width = 2, height = 2\<rparr> =
     [\<lparr>type = ''bend-straight-hv'', positions = [\<lparr>row = 0, col = 0\<rparr>, \<lparr>row = 1, col = 0\<rparr>],
       blockDimensions = None\<rparr>,
      \<lparr>type = ''bend-straight-vh'', positions = [\<lparr>row = 0, col = 0\<rparr>, \<lparr>row = 0, col = 1\<rparr>],
       blockDimensions = None\<rparr>] \<and>
   bendStraightHV ''AB'' 0 1 1 =
     \<lparr>type = ''bend-straight-hv'', positions = [\<lparr>row = 0, col = 1\<rparr>, \<lparr>row = 1, col = 1\<rparr>],
      blockDimensions = None\<rparr> \<and>
   list_all (\<lambda>pos. isValidPosition pos \<lparr>width = 2, height = 2\<rparr>)
     (positions (bendStraightHV ''AB'' 0 1 1)) \<and>
   bendStraightHV ''AB'' 0 1 1 \<notin> set (generateBendStraightPlacements ''AB'' \<lparr>width = 2, height = 2\<rparr>)"
  by (simp add: generateBendStraightPlacements_def bendStraightHV_def bendStraightVH_def
      isValidPosition_def upto_rec1)

subsection \<open>Letters on the board in the forward and backward modes\<close>

lemma writeCell_same: "writeCell b q v = Inr b' \<Longrightarrow> readCell b' q = Inr v"
  by (auto simp: writeCell_def readCell_def split: option.splits)

lemma writeCell_other:
  "writeCell b q v = Inr b' \<Longrightarrow> pos \<noteq> q \<Longrightarrow> readCell b' pos = readCell b pos"
  by (cases pos; cases q) (auto simp: writeCell_def readCell_def split: option.splits if_splits)

lemma placeWordFrom_other:
  "placeWordFrom E b word ps i dir n = Inr (b', n') \<Longrightarrow> pos \<notin> set ps \<Longrightarrow>
   readCell b' pos = readCell b pos"
proof (induction ps arbitrary: b i n)
  case Nil
  then show ?case by simp
next
  case (Cons q ps)
  obtain letter n1 where l: "getLetterForPosition E word i dir n = (letter, n1)"
    by (cases "getLetterForPosition E word i dir n")
  with Cons.prems obtain b1 where w: "writeCell b q letter = Inr b1"
    and r: "placeWordFrom E b1 word ps (Suc i) dir n1 = Inr (b', n')"
    by (auto split: sum.splits)
  from Cons.prems(2) have "pos \<noteq> q" "pos \<notin> set ps" by auto
  with Cons.IH [OF r] writeCell_other [OF w] show ?case by simp
qed

lemma placeWordFrom_reads:
  assumes det: "\<And>k m. getLetterForPosition E word k dir m = (L k, m)"
  shows "distinct ps \<Longrightarrow> placeWordFrom E b word ps i dir n = Inr (b', n') \<Longrightarrow>
         map (readCell b') ps = map (\<lambda>k. Inr (L k)) [i..<i + length ps]"
proof (induction ps arbitrary: b i n)
  case Nil
  then show ?case by simp
next
  case (Cons q ps)
  from Cons.prems(2) obtain b1 where w: "writeCell b q (L i) = Inr b1"
    and r: "placeWordFrom E b1 word ps (Suc i) dir n = Inr (b', n')"
    by (auto simp: det split: sum.splits)
  from Cons.prems(1) have "q \<notin> set ps" "distinct ps" by auto
  from placeWordFrom_other [OF r \<open>q \<notin> set ps\<close>] writeCell_same [OF w]
  have hd: "readCell b' q = Inr (L i)" by simp
  from Cons.IH [OF \<open>distinct ps\<close> r]
  have tl: "map (readCell b') ps = map (\<lambda>k. Inr (L k)) [Suc i..<Suc i + length ps]" .
  have u: "[i..<i + length (q # ps)] = i # [Suc i..<Suc i + length ps]"
  proof -
    have "i + length (q # ps) = Suc (i + length ps)" by simp
    moreover have "[i..<Suc (i + length ps)] = i # [Suc i..<Suc (i + length ps)]"
      by (rule upt_conv_Cons) simp
    ultimately show ?thesis by (simp only: add_Suc)
  qed
  have "map (readCell b') (q # ps) = readCell b' q # map (readCell b') ps"
    by simp
  also have "\<dots> = Inr (L i) # map (\<lambda>k. Inr (L k)) [Suc i..<Suc i + length ps]"
    by (simp only: hd tl)
  also have "\<dots> = map (\<lambda>k. Inr (L k)) [i..<i + length (q # ps)]"
    unfolding u by (simp only: list.map)
  finally show ?case .
qed

lemma placeWordFrom_keeps:
  assumes det: "\<And>k m. getLetterForPosition E word k dir m = (L k, m)"
    and v: "readCell b0 pos = Inr v" "v \<noteq> JStr []"
  shows "canPlaceWordFrom E b0 word ps i dir n0 = Inr (True, n1) \<Longrightarrow>
         placeWordFrom E b word ps i dir n = Inr (b', n') \<Longrightarrow>
         readCell b pos = Inr v \<Longrightarrow> readCell b' pos = Inr v"
proof (induction ps arbitrary: b i n n0)
  case Nil
  then show ?case by simp
next
  case (Cons q ps)
  from Cons.prems(2) obtain b1 where w: "writeCell b q (L i) = Inr b1"
    and r: "placeWordFrom E b1 word ps (Suc i) dir n = Inr (b', n')"
    by (auto simp: det split: sum.splits)
  from Cons.prems(1) obtain cq where cq: "readCell b0 q = Inr cq"
    and ok: "cq = JStr [] \<or> cq = L i"
    and c: "canPlaceWordFrom E b0 word ps (Suc i) dir n0 = Inr (True, n1)"
    by (auto simp: det split: sum.splits if_splits)
  have "readCell b1 pos = Inr v"
  proof (cases "pos = q")
    case True
    with cq v ok have "L i = v" by auto
    with writeCell_same [OF w] True show ?thesis by simp
  next
    case False
    with writeCell_other [OF w] Cons.prems(3) show ?thesis by simp
  qed
  with Cons.IH [OF c r] show ?case by blast
qed

lemma getLetter_deterministic:
  assumes "dir = ''forward'' \<or> dir = ''backward''"
  shows "getLetterForPosition E word k dir m =
           (strAt word (if dir = ''backward'' then wlen word - 1 - int k else int k), m)"
  using assms by (auto simp: getLetterForPosition_def)

lemma placeWordOnBoard_keeps:
  assumes dir: "direction al = ''forward'' \<or> direction al = ''backward''"
    and step: "placeWordOnBoard E b word al bs n = Inr (res, b', n')"
    and v: "readCell b pos = Inr v" "v \<noteq> JStr []"
  shows "readCell b' pos = Inr v"
proof (cases "success res")
  case True
  with placeWordLoop_result [OF step [unfolded placeWordOnBoard_def]]
  obtain plc :: placement and m m'
    where c: "canPlaceWordFrom E b word (positions plc) 0 (direction al) m = Inr (True, m')"
      and p: "placeWordFrom E b word (positions plc) 0 (direction al) m' = Inr (b', n')"
    unfolding canPlaceWord_def placeWord_def by force
  show ?thesis
    by (rule placeWordFrom_keeps [OF getLetter_deterministic [OF dir] v c p v(1)])
next
  case False
  with placeWordLoop_result [OF step [unfolded placeWordOnBoard_def]] v show ?thesis
    by simp
qed

lemma placeWords_keeps:
  assumes dir: "direction al = ''forward'' \<or> direction al = ''backward''"
    and v: "v \<noteq> JStr []"
  shows "placeWords E b ws al bs n warnings = Inr (b', n', warnings') \<Longrightarrow>
         readCell b pos = Inr v \<Longrightarrow> readCell b' pos = Inr v"
proof (induction ws arbitrary: b n warnings)
  case Nil
  then show ?case by simp
next
  case (Cons w ws)
  from Cons.prems(1) obtain res b1 n1 warnings1
    where step: "placeWordOnBoard E b w al bs n = Inr (res, b1, n1)"
      and rest: "placeWords E b1 ws al bs n1 warnings1 = Inr (b', n', warnings')"
    by (auto split: sum.splits)
  from placeWordOnBoard_keeps [OF dir step Cons.prems(2) v] Cons.IH [OF rest]
  show ?case by blast
qed

lemma strAt_forward:
  "m \<le> length word \<Longrightarrow>
   map (\<lambda>k. strAt word (int k)) [0..<m] = map (\<lambda>c. JStr [c]) (take m word)"
  by (rule nth_equalityI) (auto simp: strAt_def)

lemma strAt_backward:
  "m \<le> length word \<Longrightarrow>
   map (\<lambda>k. strAt word (wlen word - 1 - int k)) [0..<m] = map (\<lambda>c. JStr [c]) (take m (rev word))"
proof (rule nth_equalityI)
  show "length (map (\<lambda>k. strAt word (wlen word - 1 - int k)) [0..<m]) =
        length (map (\<lambda>c. JStr [c]) (take m (rev word)))"
    if "m \<le> length word" using that by simp
next
  fix i
  assume m: "m \<le> length word"
    and "i < length (map (\<lambda>k. strAt word (wlen word - 1 - int k)) [0..<m])"
  then have i: "i < m" by simp
  with m have "nat (wlen word - 1 - int i) = length word - Suc i" by linarith
  with i m show "map (\<lambda>k. strAt word (wlen word - 1 - int k)) [0..<m] ! i =
        map (\<lambda>c. JStr [c]) (take m (rev word)) ! i"
    by (simp add: strAt_def rev_nth)
qed

lemma placeWordOnBoard_reads:
  assumes dir: "direction al = ''forward'' \<or> direction al = ''backward''"
    and step: "placeWordOnBoard E b w al bs n = Inr (res, b', n')" and ok: "success res"
  shows "\<exists>plc \<in> set (generatePossiblePlacements w al bs).
           (\<exists>m. placeWord E b w plc (direction al) m = Inr (b', n')) \<and>
           map (readCell b') (positions plc) =
             map (\<lambda>c. Inr (JStr [c]))
               (take (length (positions plc)) (if direction al = ''backward'' then rev w else w))"
proof -
  from placeWordLoop_result [OF step [unfolded placeWordOnBoard_def]] ok
  obtain plc :: placement and m'
    where mem: "plc \<in> set (generatePossiblePlacements w al bs)"
      and p: "placeWordFrom E b w (positions plc) 0 (direction al) m' = Inr (b', n')"
    unfolding placeWord_def by force
  from wellShaped_candidates [OF mem]
  have d: "distinct (positions plc)" and len: "length (positions plc) \<le> length w"
    by (simp_all add: wellShaped_def)
  let ?m = "length (positions plc)"
  let ?L = "\<lambda>k. strAt w (if direction al = ''backward'' then wlen w - 1 - int k else int k)"
  from placeWordFrom_reads [OF getLetter_deterministic [OF dir] d p]
  have "map (readCell b') (positions plc) = map (\<lambda>k. Inr (?L k)) [0..<?m]"
    by simp
  also have "\<dots> = map Inr (map ?L [0..<?m])"
    by simp
  also have "map ?L [0..<?m] =
      map (\<lambda>c. JStr [c]) (take ?m (if direction al = ''backward'' then rev w else w))"
    using strAt_forward [OF len] strAt_backward [OF len] by simp
  finally have "map (readCell b') (positions plc) =
      map (\<lambda>c. Inr (JStr [c]))
        (take ?m (if direction al = ''backward'' then rev w else w))"
    by (simp add: comp_def)
  moreover from p have "\<exists>m. placeWord E b w plc (direction al) m = Inr (b', n')"
    unfolding placeWord_def by blast
  ultimately show ?thesis
    using mem by blast
qed

subsection \<open>A letter on the board is replaced by a different one\<close>

text \<open>
  Claim C1, on the failing input: a board of width 2 and height 1, the words \<^verbatim>\<open>AB\<close> and
  \<^verbatim>\<open>AB\<close>, horizontal lines only, direction \<^verbatim>\<open>forwardBackward\<close>, and \<^verbatim>\<open>Math.random()\<close>
  returning 1/4 eight times and 3/4 afterwards. The first word is placed and cell
  (0, 0) holds \<^verbatim>\<open>A\<close>. For the second word the collision check draws the forward letters
  and passes, the write draws the backward letters, and cell (0, 0) holds \<^verbatim>\<open>B\<close> on the
  board that is returned, with no warning. In the forward and backward modes no such
  change can happen (\<open>placeWords_keeps\<close>).
\<close>

theorem forwardBackward_overwrites_letter:
  "\<exists>b1 b2.
     placeWordOnBoard randomFlip (createEmptyBoard \<lparr>width = 2, height = 1\<rparr>) ''AB''
       \<lparr>lines = noLines\<lparr>horizontal := True\<rparr>, direction = ''forwardBackward''\<rparr>
       \<lparr>width = 2, height = 1\<rparr> 0 = Inr (placed, b1, 5) \<and>
     readCell b1 \<lparr>row = 0, col = 0\<rparr> = Inr (JStr ''A'') \<and>
     placeWordOnBoard randomFlip b1 ''AB''
       \<lparr>lines = noLines\<lparr>horizontal := True\<rparr>, direction = ''forwardBackward''\<rparr>
       \<lparr>width = 2, height = 1\<rparr> 5 = Inr (placed, b2, 10) \<and>
     readCell b2 \<lparr>row = 0, col = 0\<rparr> = Inr (JStr ''B'') \<and>
     generateWordsOnBoard randomFlip (Some \<lparr>width = JNum 2, height = JNum 1\<rparr>)
       (Some [''AB'', ''AB''])
       (Some \<lparr>lines = Some (noLines\<lparr>horizontal := True\<rparr>),
              direction = JStr ''forwardBackward''\<rparr>) = Inr (b2, [])"
  by (simp add: run_simps)

subsection \<open>A placed word can be read back\<close>

text \<open>
  Claim C2, as the specification states it, fails: with only the diagonal bend enabled,
  direction \<^verbatim>\<open>forward\<close>, on a board of one cell, the word \<^verbatim>\<open>AB\<close> is placed with no
  warning; its only candidate placement has the single position (0, 0), and the
  characters read there are \<^verbatim>\<open>A\<close>, not \<^verbatim>\<open>AB\<close>.
\<close>

theorem bendsDiagonal_writes_one_letter:
  "generatePossiblePlacements ''AB''
     \<lparr>lines = noLines\<lparr>bendsDiagonal := True\<rparr>, direction = ''forward''\<rparr> \<lparr>width = 1, height = 1\<rparr> =
     [\<lparr>type = ''bend-diagonal-down-up'', positions = [\<lparr>row = 0, col = 0\<rparr>],
       blockDimensions = None\<rparr>] \<and>
   map_sum id (\<lambda>(b, warnings). (map (readCell b) [\<lparr>row = 0, col = 0\<rparr>], warnings))
     (generateWordsOnBoard randomZero (Some \<lparr>width = JNum 1, height = JNum 1\<rparr>) (Some [''AB''])
        (Some \<lparr>lines = Some (noLines\<lparr>bendsDiagonal := True\<rparr>), direction = JStr ''forward''\<rparr>)) =
     Inr ([Inr (JStr ''A'')], [])"
  by (simp add: run_simps generateBendDiagonalPlacements_def isValidDiagonalBend_def
      generateDiagonalBendPositions_def isValidPosition_def)

text \<open>
  Claim C2, amended. On the board that \<open>generateWordsOnBoard\<close> returns, for every word
  that was placed, the positions of the candidate placement that was written, read in
  order, hold the first characters of the word (direction \<^verbatim>\<open>forward\<close>) or of the
  reversed word (direction \<^verbatim>\<open>backward\<close>), as many as the placement has positions:
  all of them for every shape but the diagonal bend, whose placement has one position.
\<close>

theorem placed_word_reads_back:
  assumes "validateInputs boardSize words alignment = Inr (bs, ws1 @ w # ws2, al)"
    and "direction al = ''forward'' \<or> direction al = ''backward''"
    and "placeWords E (createEmptyBoard bs) ws1 al bs 0 [] = Inr (b1, n1, warnings1)"
    and "placeWordOnBoard E b1 w al bs n1 = Inr (res, b2, n2)" and "success res"
    and "generateWordsOnBoard E boardSize words alignment = Inr (bf, warnings)"
  shows "\<exists>plc \<in> set (generatePossiblePlacements w al bs).
           (\<exists>m. placeWord E b1 w plc (direction al) m = Inr (b2, n2)) \<and>
           map (readCell bf) (positions plc) =
             map (\<lambda>c. Inr (JStr [c]))
               (take (length (positions plc)) (if direction al = ''backward'' then rev w else w)) \<and>
           length (positions plc) =
             (if type plc = ''bend-diagonal-down-up'' then 1 else length w)"
proof -
  from assms(1,6) obtain nf
    where "placeWords E (createEmptyBoard bs) (ws1 @ w # ws2) al bs 0 [] = Inr (bf, nf, warnings)"
    by (auto simp: generateWordsOnBoard_def split: sum.splits)
  with assms(3,4) obtain warnings2
    where rest: "placeWords E b2 ws2 al bs n2 warnings2 = Inr (bf, nf, warnings)"
    by (simp add: placeWords_append)
  from placeWordOnBoard_reads [OF assms(2,4,5)] obtain plc
    where mem: "plc \<in> set (generatePossiblePlacements w al bs)"
      and put: "\<exists>m. placeWord E b1 w plc (direction al) m = Inr (b2, n2)"
      and rd: "map (readCell b2) (positions plc) =
             map (\<lambda>c. Inr (JStr [c]))
               (take (length (positions plc)) (if direction al = ''backward'' then rev w else w))"
    by blast
  have "readCell bf pos = readCell b2 pos" if "pos \<in> set (positions plc)" for pos
  proof -
    from that have "readCell b2 pos \<in> set (map (readCell b2) (positions plc))" by simp
    then obtain c where c: "readCell b2 pos = Inr (JStr [c])"
      unfolding rd by auto
    have "JStr [c] \<noteq> JStr []" by simp
    from placeWords_keeps [OF assms(2) this rest c] c show ?thesis by simp
  qed
  then have "map (readCell bf) (positions plc) = map (readCell b2) (positions plc)"
    by simp
  with rd have "map (readCell bf) (positions plc) =
             map (\<lambda>c. Inr (JStr [c]))
               (take (length (positions plc)) (if direction al = ''backward'' then rev w else w))"
    by (simp only:)
  moreover from wellShaped_candidates [OF mem]
  have "length (positions plc) = (if type plc = ''bend-diagonal-down-up'' then 1 else length w)"
    by (simp add: wellShaped_def)
  ultimately show ?thesis
    using mem put by blast
qed

theorem placed_word_reads_back_witness:
  "\<exists>bf. generateWordsOnBoard randomZero (Some \<lparr>width = JNum 5, height = JNum 1\<rparr>)
          (Some [''CAT'', ''CA''])
          (Some \<lparr>lines = Some (noLines\<lparr>horizontal := True\<rparr>), direction = JStr ''forward''\<rparr>) =
        Inr (bf, []) \<and>
        map (readCell bf) [\<lparr>row = 0, col = 0\<rparr>, \<lparr>row = 0, col = 1\<rparr>, \<lparr>row = 0, col = 2\<rparr>] =
          [Inr (JStr ''C''), Inr (JStr ''A''), Inr (JStr ''T'')] \<and>
        (\<exists>plc \<in> set (generatePossiblePlacements ''CAT''
                  \<lparr>lines = noLines\<lparr>horizontal := True\<rparr>, direction = ''forward''\<rparr>
                  \<lparr>width = 5, height = 1\<rparr>).
           map (readCell bf) (positions plc) =
             map (\<lambda>c. Inr (JStr [c])) (take (length (positions plc)) ''CAT'') \<and>
           length (positions plc) =
             (if type plc = ''bend-diagonal-down-up'' then 1 else length ''CAT''))"
proof -
  let ?bs = "\<lparr>width = 5, height = 1\<rparr> :: int dims"
  let ?al = "\<lparr>lines = noLines\<lparr>horizontal := True\<rparr>, direction = ''forward''\<rparr>"
  let ?bsr = "Some \<lparr>width = JNum 5, height = JNum 1\<rparr>"
  let ?alr = "Some \<lparr>lines = Some (noLines\<lparr>horizontal := True\<rparr>), direction = JStr ''forward''\<rparr>"
  have v: "validateInputs ?bsr (Some [''CAT'', ''CA'']) ?alr = Inr (?bs, [] @ ''CAT'' # [''CA''], ?al)"
    by (simp add: run_simps)
  have d: "direction ?al = ''forward'' \<or> direction ?al = ''backward''"
    by simp
  have r1: "placeWords randomZero (createEmptyBoard ?bs) [] ?al ?bs 0 [] =
              Inr (createEmptyBoard ?bs, 0, [])"
    by simp
  obtain b2 where r2: "placeWordOnBoard randomZero (createEmptyBoard ?bs) ''CAT'' ?al ?bs 0 =
      Inr (placed, b2, 1)"
    by (simp add: run_simps)
  have s: "success placed"
    by (simp add: placed_def)
  obtain bf where g: "generateWordsOnBoard randomZero ?bsr (Some [''CAT'', ''CA'']) ?alr = Inr (bf, [])"
    and rd: "map (readCell bf) [\<lparr>row = 0, col = 0\<rparr>, \<lparr>row = 0, col = 1\<rparr>, \<lparr>row = 0, col = 2\<rparr>] =
          [Inr (JStr ''C''), Inr (JStr ''A''), Inr (JStr ''T'')]"
    by (simp add: run_simps)
  from placed_word_reads_back [OF v d r1 r2 s g] obtain plc :: placement
    where mem: "plc \<in> set (generatePossiblePlacements ''CAT'' ?al ?bs)"
      and rd': "map (readCell bf) (positions plc) =
             map (\<lambda>c. Inr (JStr [c]))
               (take (length (positions plc))
                  (if direction ?al = ''backward'' then rev ''CAT'' else ''CAT''))"
      and len: "length (positions plc) =
             (if type plc = ''bend-diagonal-down-up'' then 1 else length ''CAT'')"
    by blast
  from rd' have rd'': "map (readCell bf) (positions plc) =
             map (\<lambda>c. Inr (JStr [c])) (take (length (positions plc)) ''CAT'')"
    by simp
  show ?thesis
    by (intro exI [of _ bf] conjI bexI [of _ plc]) (fact g, fact rd, fact rd'', fact len, fact mem)
qed

end
